theory Spec2Isabelle
  imports Main "HOL-Library.Word"
begin

section \<open>The shuttle node of cmd/estuary-shuttle/main.go\<close>

text \<open>
  Conventions of the embedding.
  \<^item> Go's \<open>uint\<close> database keys (\<open>Pin.ID\<close>, \<open>Pin.Content\<close>, \<open>Object.ID\<close>) are
    \<open>nat\<close>: the program only compares and copies them.
  \<^item> \<open>int64\<close> and \<open>uint64\<close> quantities the program adds up are \<open>64 word\<close>.
  \<^item> A content address (\<open>cid.Cid\<close>) is its codec together with its string form.
  \<^item> Every call that can fail in the source takes its outcome from an explicit
    environment argument, so that each \<open>if err != nil\<close> of the source is a branch.
  \<^item> A \<open>go f(...)\<close> statement is recorded as the call it spawns, in spawn order.
\<close>

subsection \<open>Channel tracker (main, lines 228-248)\<close>

text \<open>\<open>datatransfer.ChannelState\<close>, the argument of the event callback, read through its
  accessors \<open>ChannelID()\<close>, \<open>Status()\<close>, \<open>Sent()\<close>, \<open>Received()\<close>, \<open>Message()\<close>.\<close>

record dt_ChannelState =
  dt_ChannelID :: string
  dt_Status :: "64 word"
  dt_Sent :: "64 word"
  dt_Received :: "64 word"
  dt_Message :: string

text \<open>\<open>datatransfer.Event\<close>; the callback only logs it.\<close>

record dt_Event =
  ev_Code :: nat
  ev_Message :: string

text \<open>\<open>filclient.ChannelState\<close>, the value stored in \<open>chanTrack.last\<close> (field \<open>trk_last\<close> below).\<close>

record ChannelState =
  cs_Status :: "64 word"
  cs_Sent :: "64 word"
  cs_Received :: "64 word"
  cs_Message :: string

text \<open>Modelled from the spec: \<open>filclient.ChannelStateConv\<close> lives in package filclient,
  which is not among the sources. The spec says the tracker stores the event's status as
  the last recorded status of the channel; the conversion copies the accessors' values.\<close>

definition ChannelStateConv :: "dt_ChannelState \<Rightarrow> ChannelState" where
  "ChannelStateConv st =
     \<lparr>cs_Status = dt_Status st, cs_Sent = dt_Sent st,
      cs_Received = dt_Received st, cs_Message = dt_Message st\<rparr>"

record chanTrack =
  dbid :: nat
  trk_last :: "ChannelState option"

text \<open>\<open>drpc.TransferStatus\<close>, the argument of the spawned \<open>sendTransferStatusUpdate\<close>.\<close>

record TransferStatus =
  Chanid :: string
  DealDBID :: nat
  State :: ChannelState

type_synonym trackingChannels = "string \<rightharpoonup> chanTrack"

text \<open>The callback registered with \<open>SubscribeToDataTransferEvents\<close>. It runs under
  \<open>tcLk\<close>, so calls are serialised; the result is the updated map together with the
  \<open>sendTransferStatusUpdate\<close> calls spawned by this event (none or one).\<close>

definition onTransferEvent ::
  "trackingChannels \<Rightarrow> dt_Event \<Rightarrow> dt_ChannelState \<Rightarrow> trackingChannels \<times> TransferStatus list" where
  "onTransferEvent tc event st =
     (let chid = dt_ChannelID st in
      case tc chid of
        None \<Rightarrow> (tc, [])
      | Some trk \<Rightarrow>
          if (case trk_last trk of None \<Rightarrow> True | Some l \<Rightarrow> cs_Status l \<noteq> dt_Status st) then
            (let cst = ChannelStateConv st in
             (tc(chid \<mapsto> trk\<lparr>trk_last := Some cst\<rparr>),
              [\<lparr>Chanid = chid, DealDBID = dbid trk, State = cst\<rparr>]))
          else (tc, []))"

text \<open>A sequence of events delivered to the callback, in delivery order.\<close>

fun onTransferEvents ::
  "trackingChannels \<Rightarrow> (dt_Event \<times> dt_ChannelState) list \<Rightarrow> trackingChannels \<times> TransferStatus list" where
  "onTransferEvents tc [] = (tc, [])"
| "onTransferEvents tc ((event, st) # evs) =
     (let (tc1, out1) = onTransferEvent tc event st;
          (tc2, out2) = onTransferEvents tc1 evs
      in (tc2, out1 @ out2))"

text \<open>The statuses the tracker reports for channel \<open>c\<close>, and those delivered for it.\<close>

definition emitted_statuses :: "string \<Rightarrow> TransferStatus list \<Rightarrow> 64 word list" where
  "emitted_statuses c out = map (\<lambda>m. cs_Status (State m)) (filter (\<lambda>m. Chanid m = c) out)"

definition delivered_statuses :: "string \<Rightarrow> (dt_Event \<times> dt_ChannelState) list \<Rightarrow> 64 word list" where
  "delivered_statuses c evs = map (\<lambda>e. dt_Status (snd e)) (filter (\<lambda>e. dt_ChannelID (snd e) = c) evs)"

text \<open>The spec's reading of the dedup: each distinct value once, in order of first
  occurrence.\<close>

fun first_occurrences :: "'a list \<Rightarrow> 'a list" where
  "first_occurrences [] = []"
| "first_occurrences (x # xs) = x # filter (\<lambda>y. y \<noteq> x) (first_occurrences xs)"

text \<open>What the comparison with the last recorded status yields: the statuses that differ
  from their predecessor, the predecessor of the first being the recorded one.\<close>

fun changes_from :: "64 word option \<Rightarrow> 64 word list \<Rightarrow> 64 word list" where
  "changes_from l [] = []"
| "changes_from l (s # ss) =
     (if l = Some s then changes_from l ss else s # changes_from (Some s) ss)"

text \<open>An event of channel \<open>c\<close> carrying status \<open>s\<close>, for concrete runs.\<close>

definition transfer_event :: "string \<Rightarrow> 64 word \<Rightarrow> dt_Event \<times> dt_ChannelState" where
  "transfer_event c s =
     (\<lparr>ev_Code = 0, ev_Message = []\<rparr>,
      \<lparr>dt_ChannelID = c, dt_Status = s, dt_Sent = 0, dt_Received = 0, dt_Message = []\<rparr>)"

subsection \<open>Errors\<close>

text \<open>The error values the modelled functions return. A \<open>panic\<close> unwinds through every
  caller in the source; here it is the value \<open>Panic\<close>, which callers pass on.\<close>

datatype error =
    ErrRecordNotFound
  | DBError
  | NodeGetError
  | IOError
  | ErrorString string
  | Wrapped string error
  | HttpError nat string
  | Panic string

subsection \<open>Database rows\<close>

text \<open>A \<open>cid.Cid\<close>: its codec (\<open>Type()\<close>) and its string form (\<open>String()\<close>).\<close>

record Cid =
  cid_Type :: nat
  cid_String :: string

definition Raw :: nat where
  "Raw = 0x55"

text \<open>Modelled from the spec: the declarations of \<open>Pin\<close>, \<open>Object\<close> and \<open>ObjRef\<close> are
  not among the sources. The fields are those the spec's data model lists and the code
  reads or writes (\<open>ID\<close>, \<open>Content\<close>, \<open>Cid\<close>, \<open>UserID\<close>, \<open>Active\<close>, \<open>Pinning\<close>,
  \<open>CreatedAt\<close>, the columns \<open>failed\<close> and \<open>size\<close>; \<open>Object.ID\<close>, \<open>Object.Cid\<close>,
  \<open>Object.Size\<close>; \<open>ObjRef.Pin\<close>, \<open>ObjRef.Object\<close>).\<close>

record Pin =
  pin_ID :: nat
  pin_Content :: nat
  pin_Cid :: Cid
  pin_UserID :: nat
  pin_Active :: bool
  pin_Pinning :: bool
  pin_Failed :: bool
  pin_Size :: "64 word"
  pin_CreatedAt :: nat

record Object =
  obj_ID :: nat
  obj_Cid :: Cid
  obj_Size :: "64 word"

record ObjRef =
  ref_ID :: nat
  ref_Pin :: nat
  ref_Object :: nat

subsection \<open>The database\<close>

text \<open>The write statements the program issues through gorm, as they reach the database.\<close>

datatype stmt =
    InsertPin Pin
  | InsertObjects "Object list"
  | InsertObjRefs "ObjRef list"
  | UpdatePinActive nat "64 word"
  | UpdatePinFailed nat
  | DeletePin nat
  | DeleteObjRefs nat

text \<open>The three tables, rows in insertion order, and the write statements executed so
  far, latest last.\<close>

record DB =
  pins :: "Pin list"
  objects :: "Object list"
  obj_refs :: "ObjRef list"
  db_log :: "stmt list"

text \<open>The key the database gives to the next inserted row: above every key in use.\<close>

definition fresh_id :: "nat list \<Rightarrow> nat" where
  "fresh_id ids = Suc (fold max ids 0)"

text \<open>\<open>DB.First(&pin, cond)\<close>: the matching row with the least primary key,
  \<open>ErrRecordNotFound\<close> when there is none; \<open>err\<close> says that the query itself fails.\<close>

definition First_pin :: "(Pin \<Rightarrow> bool) \<Rightarrow> bool \<Rightarrow> DB \<Rightarrow> error + Pin" where
  "First_pin cond err db =
     (if err then Inl DBError
      else case sort_key pin_ID (filter cond (pins db)) of
             [] \<Rightarrow> Inl ErrRecordNotFound
           | p # _ \<Rightarrow> Inr p)"

text \<open>\<open>DB.Find(&toPin, cond)\<close>: all matching rows.\<close>

definition Find_pins :: "(Pin \<Rightarrow> bool) \<Rightarrow> bool \<Rightarrow> DB \<Rightarrow> error + Pin list" where
  "Find_pins cond err db = (if err then Inl DBError else Inr (filter cond (pins db)))"

text \<open>One \<open>INSERT\<close> of a batch of rows; the rows come back with their keys filled in.\<close>

fun assign_object_ids :: "nat \<Rightarrow> Object list \<Rightarrow> Object list" where
  "assign_object_ids n [] = []"
| "assign_object_ids n (x # xs) = x\<lparr>obj_ID := n\<rparr> # assign_object_ids (Suc n) xs"

fun assign_ref_ids :: "nat \<Rightarrow> ObjRef list \<Rightarrow> ObjRef list" where
  "assign_ref_ids n [] = []"
| "assign_ref_ids n (x # xs) = x\<lparr>ref_ID := n\<rparr> # assign_ref_ids (Suc n) xs"

definition insert_objects :: "Object list \<Rightarrow> DB \<Rightarrow> Object list \<times> DB" where
  "insert_objects rows db =
     (let rows' = assign_object_ids (fresh_id (map obj_ID (objects db))) rows
      in (rows', db\<lparr>objects := objects db @ rows', db_log := db_log db @ [InsertObjects rows']\<rparr>))"

definition insert_obj_refs :: "ObjRef list \<Rightarrow> DB \<Rightarrow> ObjRef list \<times> DB" where
  "insert_obj_refs rows db =
     (let rows' = assign_ref_ids (fresh_id (map ref_ID (obj_refs db))) rows
      in (rows', db\<lparr>obj_refs := obj_refs db @ rows', db_log := db_log db @ [InsertObjRefs rows']\<rparr>))"

definition insert_pin :: "Pin \<Rightarrow> bool \<Rightarrow> DB \<Rightarrow> (error + Pin) \<times> DB" where
  "insert_pin p err db =
     (if err then (Inl DBError, db)
      else (let p' = p\<lparr>pin_ID := fresh_id (map pin_ID (pins db))\<rparr>
            in (Inr p', db\<lparr>pins := pins db @ [p'], db_log := db_log db @ [InsertPin p']\<rparr>)))"

text \<open>\<open>DB.CreateInBatches(rows, n)\<close>: the rows are cut into consecutive batches of \<open>n\<close>
  (the last one may be shorter) and each batch is one \<open>INSERT\<close>. The program passes the
  constants 300 and 500; a batch size of 0 is given no batch here.\<close>

function batches :: "nat \<Rightarrow> 'a list \<Rightarrow> 'a list list" where
  "batches n xs = (if n = 0 \<or> xs = [] then [] else take n xs # batches n (drop n xs))"
  by pat_completeness auto
termination
  by (relation "measure (\<lambda>(n, xs). length xs)") auto

declare batches.simps [simp del]

text \<open>\<open>fail = Some k\<close> makes the \<open>INSERT\<close> of batch number \<open>k\<close> (from 0) fail; the batches
  before it have been inserted, as the spec notes for rows inserted before a later
  failure. The first argument is the \<open>INSERT\<close> of the table, the third the number of the
  batch at hand.\<close>

fun create_batches ::
  "('r list \<Rightarrow> DB \<Rightarrow> 'r list \<times> DB) \<Rightarrow> nat option \<Rightarrow> nat \<Rightarrow> 'r list list \<Rightarrow> DB \<Rightarrow> (error + 'r list) \<times> DB" where
  "create_batches ins fail i [] db = (Inr [], db)"
| "create_batches ins fail i (b # bs) db =
     (if fail = Some i then (Inl DBError, db)
      else (let (b', db') = ins b db in
            case create_batches ins fail (Suc i) bs db' of
              (Inl e, db'') \<Rightarrow> (Inl e, db'')
            | (Inr rest, db'') \<Rightarrow> (Inr (b' @ rest), db'')))"

definition CreateInBatches ::
  "('r list \<Rightarrow> DB \<Rightarrow> 'r list \<times> DB) \<Rightarrow> nat option \<Rightarrow> 'r list \<Rightarrow> nat \<Rightarrow> DB \<Rightarrow> (error + 'r list) \<times> DB" where
  "CreateInBatches ins fail rows n db = create_batches ins fail 0 (batches n rows) db"

text \<open>\<open>DB.Model(Pin{}).Where("content = ?", c).UpdateColumns(...)\<close>, with the two column
  maps the program uses: every row whose \<open>content\<close> column is \<open>c\<close> is updated.\<close>

definition UpdateColumns_active :: "nat \<Rightarrow> 64 word \<Rightarrow> bool \<Rightarrow> DB \<Rightarrow> (error + unit) \<times> DB" where
  "UpdateColumns_active c totalSize err db =
     (if err then (Inl DBError, db)
      else (Inr (),
            db\<lparr>pins := map (\<lambda>p. if pin_Content p = c
                                then p\<lparr>pin_Active := True, pin_Size := totalSize, pin_Pinning := False\<rparr>
                                else p) (pins db),
               db_log := db_log db @ [UpdatePinActive c totalSize]\<rparr>))"

definition UpdateColumns_failed :: "nat \<Rightarrow> bool \<Rightarrow> DB \<Rightarrow> (error + unit) \<times> DB" where
  "UpdateColumns_failed c err db =
     (if err then (Inl DBError, db)
      else (Inr (),
            db\<lparr>pins := map (\<lambda>p. if pin_Content p = c
                                then p\<lparr>pin_Pinning := False, pin_Active := False, pin_Failed := True\<rparr>
                                else p) (pins db),
               db_log := db_log db @ [UpdatePinFailed c]\<rparr>))"

text \<open>\<open>DB.Delete(Pin{}, id)\<close> and \<open>DB.Where("pin = ?", id).Delete(ObjRef{})\<close>.\<close>

definition Delete_pin :: "nat \<Rightarrow> bool \<Rightarrow> DB \<Rightarrow> (error + unit) \<times> DB" where
  "Delete_pin i err db =
     (if err then (Inl DBError, db)
      else (Inr (), db\<lparr>pins := filter (\<lambda>p. pin_ID p \<noteq> i) (pins db),
                       db_log := db_log db @ [DeletePin i]\<rparr>))"

definition Delete_obj_refs :: "nat \<Rightarrow> bool \<Rightarrow> DB \<Rightarrow> (error + unit) \<times> DB" where
  "Delete_obj_refs i err db =
     (if err then (Inl DBError, db)
      else (Inr (), db\<lparr>obj_refs := filter (\<lambda>r. ref_Pin r \<noteq> i) (obj_refs db),
                       db_log := db_log db @ [DeleteObjRefs i]\<rparr>))"

subsection \<open>Walking the graph (addDatabaseTrackingToContent, lines 739-764)\<close>

text \<open>An \<open>ipld.Node\<close> as the walk reads it: \<open>RawData()\<close> and the targets of \<open>Links()\<close>.
  The node getter is an association list from addresses to nodes; \<open>Get\<close> fails for an
  address it has no node for.\<close>

record ipld_node =
  nd_RawData :: "8 word list"
  nd_Links :: "Cid list"

type_synonym NodeGetter = "(Cid \<times> ipld_node) list"

text \<open>The variables the callback captures: \<open>objects\<close> and \<open>totalSize\<close>.\<close>

type_synonym walk_state = "Object list \<times> 64 word"

text \<open>The function literal passed to \<open>merkledag.Walk\<close>.\<close>

definition getLinks :: "NodeGetter \<Rightarrow> Cid \<Rightarrow> walk_state \<Rightarrow> error + (Cid list \<times> walk_state)" where
  "getLinks dserv c ws =
     (case map_of dserv c of
        None \<Rightarrow> Inl NodeGetError
      | Some node \<Rightarrow>
          (let objects' = fst ws @ [\<lparr>obj_ID = 0, obj_Cid = c,
                                    obj_Size = of_nat (length (nd_RawData node))\<rparr>];
               totalSize' = snd ws + of_nat (length (nd_RawData node))
           in if cid_Type c = Raw then Inr ([], (objects', totalSize'))
              else Inr (nd_Links node, (objects', totalSize'))))"

text \<open>\<open>merkledag.Walk\<close> with \<open>cset.Visit\<close>: an address already in the set is skipped,
  otherwise it is added, the callback runs, and the links it returns are walked. The
  library walks concurrently (\<open>merkledag.Concurrent()\<close>); this is the depth-first
  schedule, with the addresses still to walk in the second argument and \<open>cset\<close> in the
  third.\<close>

function Walk :: "NodeGetter \<Rightarrow> Cid list \<Rightarrow> Cid list \<Rightarrow> walk_state \<Rightarrow> error + walk_state" where
  "Walk dserv [] cset ws = Inr ws"
| "Walk dserv (c # todo) cset ws =
     (if c \<in> set cset then Walk dserv todo cset ws
      else case getLinks dserv c ws of
             Inl e \<Rightarrow> Inl e
           | Inr r \<Rightarrow> Walk dserv (fst r @ todo) (c # cset) (snd r))"
  by pat_completeness auto
termination
proof (relation "measures [\<lambda>(dserv, todo, cset, ws). card (fst ` set dserv - set cset),
                           \<lambda>(dserv, todo, cset, ws). length todo]")
  show "wf (measures [\<lambda>(dserv, todo, cset, ws). card (fst ` set dserv - set cset),
                      \<lambda>(dserv, todo, cset, ws). length todo])"
    by simp
next
  fix dserv :: NodeGetter and c :: Cid and todo cset :: "Cid list" and ws :: walk_state
  assume "c \<in> set cset"
  then show "((dserv, todo, cset, ws), (dserv, c # todo, cset, ws))
      \<in> measures [\<lambda>(dserv, todo, cset, ws). card (fst ` set dserv - set cset),
                   \<lambda>(dserv, todo, cset, ws). length todo]"
    by simp
next
  fix dserv :: NodeGetter and c :: Cid and todo cset :: "Cid list" and ws :: walk_state
    and r :: "Cid list \<times> walk_state"
  assume new: "c \<notin> set cset" and get: "getLinks dserv c ws = Inr r"
  from get have "c \<in> fst ` set dserv"
    by (auto simp: getLinks_def Let_def split: option.splits if_splits dest: map_of_SomeD
        intro: rev_image_eqI)
  with new have "card (fst ` set dserv - set (c # cset)) < card (fst ` set dserv - set cset)"
    by (intro psubset_card_mono) auto
  then show "((dserv, fst r @ todo, c # cset, snd r), (dserv, c # todo, cset, ws))
      \<in> measures [\<lambda>(dserv, todo, cset, ws). card (fst ` set dserv - set cset),
                   \<lambda>(dserv, todo, cset, ws). length todo]"
    by simp
qed

subsection \<open>Outbound messages (package drpc)\<close>

text \<open>Modelled from the spec: package \<open>drpc\<close> is not among the sources. The message
  variants are those of the spec's control-channel protocol; a nil pointer is \<open>None\<close>.\<close>

record ShuttleUpdate =
  PinQueueSize :: nat
  BlockstoreSize :: "64 word"
  BlockstoreFree :: "64 word"
  NumPins :: nat

record UpdatePinStatus =
  ups_DBID :: nat
  ups_Status :: string

record MsgParams =
  par_ShuttleUpdate :: "ShuttleUpdate option"
  par_UpdatePinStatus :: "UpdatePinStatus option"
  par_TransferStatus :: "TransferStatus option"

record Message =
  Op :: string
  Params :: MsgParams

definition OP_ShuttleUpdate :: string where
  "OP_ShuttleUpdate = ''ShuttleUpdate''"

definition no_params :: MsgParams where
  "no_params = \<lparr>par_ShuttleUpdate = None, par_UpdatePinStatus = None, par_TransferStatus = None\<rparr>"

subsection \<open>Walk-and-record (addDatabaseTrackingToContent, lines 730-796)\<close>

text \<open>The outcomes of the four database calls of the function.\<close>

record track_env =
  te_First_err :: bool
  te_Objects_fail :: "nat option"
  te_Update_err :: bool
  te_Refs_fail :: "nat option"

text \<open>On success the result is the argument list of the closing call
  \<open>sendPinCompleteMessage(ctx, dbpin.Content, totalSize, objects)\<close>.\<close>

definition addDatabaseTrackingToContent ::
  "track_env \<Rightarrow> NodeGetter \<Rightarrow> nat \<Rightarrow> Cid \<Rightarrow> DB \<Rightarrow> (error + nat \<times> 64 word \<times> Object list) \<times> DB" where
  "addDatabaseTrackingToContent env dserv contid root db =
     (case First_pin (\<lambda>p. pin_Content p = contid) (te_First_err env) db of
        Inl e \<Rightarrow> (Inl e, db)
      | Inr dbpin \<Rightarrow>
          (case Walk dserv [root] [] ([], 0) of
             Inl e \<Rightarrow> (Inl e, db)
           | Inr (objects0, totalSize) \<Rightarrow>
               (case CreateInBatches insert_objects (te_Objects_fail env) objects0 300 db of
                  (Inl e, db1) \<Rightarrow> (Inl (Wrapped ''failed to create objects in db'' e), db1)
                | (Inr objs, db1) \<Rightarrow>
                    (case UpdateColumns_active contid totalSize (te_Update_err env) db1 of
                       (Inl e, db2) \<Rightarrow> (Inl (Wrapped ''failed to update content in database'' e), db2)
                     | (Inr u, db2) \<Rightarrow>
                         (let refs = map (\<lambda>ob. \<lparr>ref_ID = 0, ref_Pin = pin_ID dbpin,
                                               ref_Object = obj_ID ob\<rparr>) objs
                          in case CreateInBatches insert_obj_refs (te_Refs_fail env) refs 500 db2 of
                               (Inl e, db3) \<Rightarrow> (Inl (Wrapped ''failed to create refs'' e), db3)
                             | (Inr rs, db3) \<Rightarrow> (Inr (pin_Content dbpin, totalSize, objs), db3))))))"

subsection \<open>Pin queue and state machine\<close>

text \<open>\<open>pinner.PinningOperation\<close> with the fields \<open>addPinToQueue\<close> sets; a peer
  (\<open>peer.AddrInfo\<close>) is a string.\<close>

record PinningOperation =
  op_ContId :: nat
  op_UserId :: nat
  op_Obj :: Cid
  op_Peers :: "string list"
  op_Started :: nat
  op_Status :: string
  op_Replace :: nat

text \<open>\<open>doPinning\<close> (lines 681-727). Connecting to the peers and the two \<open>Provide\<close> calls
  only log their errors and touch neither the database nor the result.\<close>

definition doPinning ::
  "track_env \<Rightarrow> NodeGetter \<Rightarrow> PinningOperation \<Rightarrow> DB \<Rightarrow> (error + unit) \<times> DB" where
  "doPinning env dsess op db =
     (case addDatabaseTrackingToContent env dsess (op_ContId op) (op_Obj op) db of
        (Inl e, db') \<Rightarrow> (Inl e, db')
      | (Inr r, db') \<Rightarrow> (Inr (), db'))"

text \<open>\<open>onPinStatusUpdate\<close> (lines 798-823): the database after the call and the message
  handed to \<open>sendRpcMessage\<close> by the spawned goroutine. A failing update is only logged.\<close>

definition onPinStatusUpdate :: "bool \<Rightarrow> nat \<Rightarrow> string \<Rightarrow> DB \<Rightarrow> DB \<times> Message" where
  "onPinStatusUpdate update_err cont status db =
     (let db' = (if status = ''failed'' then snd (UpdateColumns_failed cont update_err db) else db)
      in (db', \<lparr>Op = ''UpdatePinStatus'',
                Params = no_params\<lparr>par_UpdatePinStatus :=
                           Some \<lparr>ups_DBID = cont, ups_Status = status\<rparr>\<rparr>\<rparr>))"

text \<open>Modelled from the spec: \<open>pinner.PinManager\<close> is not among the sources. \<open>Add\<close>
  admits the operation for background processing without deduplication; the queue is
  the list of admitted operations, latest last.\<close>

definition PinMgr_Add :: "PinningOperation \<Rightarrow> PinningOperation list \<Rightarrow> PinningOperation list" where
  "PinMgr_Add op queue = queue @ [op]"

text \<open>\<open>addPinToQueue\<close> (lines 846-866) and \<open>refreshPinQueue\<close> (lines 825-844).\<close>

definition addPinToQueue ::
  "Pin \<Rightarrow> string list \<Rightarrow> nat \<Rightarrow> PinningOperation list \<Rightarrow> PinningOperation list" where
  "addPinToQueue p peers replace queue =
     PinMgr_Add \<lparr>op_ContId = pin_Content p, op_UserId = pin_UserID p, op_Obj = pin_Cid p,
                 op_Peers = peers, op_Started = pin_CreatedAt p, op_Status = ''queued'',
                 op_Replace = replace\<rparr> queue"

definition refreshPinQueue ::
  "bool \<Rightarrow> DB \<Rightarrow> PinningOperation list \<Rightarrow> (error + unit) \<times> PinningOperation list" where
  "refreshPinQueue find_err db queue =
     (case Find_pins (\<lambda>p. pin_Active p = False \<and> pin_Pinning p = True) find_err db of
        Inl e \<Rightarrow> (Inl e, queue)
      | Inr toPin \<Rightarrow> (Inr (), fold (\<lambda>c q. addPinToQueue c [] 0 q) toPin queue))"

subsection \<open>Unpin (lines 939-961)\<close>

record unpin_env =
  ue_First_err :: bool
  ue_DeletePin_err :: bool
  ue_DeleteRefs_err :: bool

text \<open>\<open>clearUnreferencedObjects\<close> takes \<open>addPinLk\<close> and panics with "nyi".\<close>

definition clearUnreferencedObjects :: "nat \<Rightarrow> DB \<Rightarrow> (error + unit) \<times> DB" where
  "clearUnreferencedObjects pin db = (Inl (Panic ''nyi''), db)"

definition Unpin :: "unpin_env \<Rightarrow> nat \<Rightarrow> DB \<Rightarrow> (error + unit) \<times> DB" where
  "Unpin env contid db =
     (case First_pin (\<lambda>p. pin_ID p = contid) (ue_First_err env) db of
        Inl e \<Rightarrow> (Inl e, db)
      | Inr pin \<Rightarrow>
          (case Delete_pin (pin_ID pin) (ue_DeletePin_err env) db of
             (Inl e, db1) \<Rightarrow> (Inl e, db1)
           | (Inr u, db1) \<Rightarrow>
               (case Delete_obj_refs (pin_ID pin) (ue_DeleteRefs_err env) db1 of
                  (Inl e, db2) \<Rightarrow> (Inl e, db2)
                | (Inr u', db2) \<Rightarrow> clearUnreferencedObjects (pin_ID pin) db2)))"

text \<open>What the spec asks of the reclamation step: the objects that no remaining
  \<open>ObjRef\<close> row refers to.\<close>

definition unreferenced_objects :: "DB \<Rightarrow> Object list" where
  "unreferenced_objects db =
     filter (\<lambda>ob. obj_ID ob \<notin> set (map ref_Object (obj_refs db))) (objects db)"

subsection \<open>Concrete inputs\<close>

text \<open>A small database and graph for the concrete runs below: two pins, the first with
  primary key 1 and content 7, the second with primary key 7 and content 9; a root node
  of two bytes linking to the raw leaves \<open>a\<close> (three bytes, linked twice) and \<open>b\<close> (one
  byte).\<close>

definition example_cid :: "nat \<Rightarrow> string \<Rightarrow> Cid" where
  "example_cid t s = \<lparr>cid_Type = t, cid_String = s\<rparr>"

definition example_pin :: "nat \<Rightarrow> nat \<Rightarrow> Pin" where
  "example_pin i c =
     \<lparr>pin_ID = i, pin_Content = c, pin_Cid = example_cid 0x70 ''root'', pin_UserID = 1,
      pin_Active = False, pin_Pinning = True, pin_Failed = False, pin_Size = 0,
      pin_CreatedAt = 0\<rparr>"

definition example_dserv :: NodeGetter where
  "example_dserv =
     [(example_cid 0x70 ''root'',
         \<lparr>nd_RawData = [1, 2],
          nd_Links = [example_cid 0x55 ''a'', example_cid 0x55 ''b'', example_cid 0x55 ''a'']\<rparr>),
      (example_cid 0x55 ''a'', \<lparr>nd_RawData = [1, 2, 3], nd_Links = []\<rparr>),
      (example_cid 0x55 ''b'', \<lparr>nd_RawData = [4], nd_Links = []\<rparr>)]"

definition example_db :: DB where
  "example_db =
     \<lparr>pins = [example_pin 1 7, example_pin 7 9], objects = [], obj_refs = [], db_log = []\<rparr>"

definition no_track_errors :: track_env where
  "no_track_errors =
     \<lparr>te_First_err = False, te_Objects_fail = None, te_Update_err = False, te_Refs_fail = None\<rparr>"

definition no_unpin_errors :: unpin_env where
  "no_unpin_errors = \<lparr>ue_First_err = False, ue_DeletePin_err = False, ue_DeleteRefs_err = False\<rparr>"

text \<open>The rows the walk of the example graph inserts for pin 1, the database after that
  walk-and-record, and the pinning operation of pin 1.\<close>

definition example_objects :: "Object list" where
  "example_objects =
     [\<lparr>obj_ID = 1, obj_Cid = example_cid 0x70 ''root'', obj_Size = 2\<rparr>,
      \<lparr>obj_ID = 2, obj_Cid = example_cid 0x55 ''a'', obj_Size = 3\<rparr>,
      \<lparr>obj_ID = 3, obj_Cid = example_cid 0x55 ''b'', obj_Size = 1\<rparr>]"

definition example_refs :: "ObjRef list" where
  "example_refs =
     [\<lparr>ref_ID = 1, ref_Pin = 1, ref_Object = 1\<rparr>,
      \<lparr>ref_ID = 2, ref_Pin = 1, ref_Object = 2\<rparr>,
      \<lparr>ref_ID = 3, ref_Pin = 1, ref_Object = 3\<rparr>]"

definition example_db_recorded :: DB where
  "example_db_recorded =
     \<lparr>pins = [(example_pin 1 7)\<lparr>pin_Active := True, pin_Size := 6, pin_Pinning := False\<rparr>,
              example_pin 7 9],
      objects = example_objects,
      obj_refs = example_refs,
      db_log = [InsertObjects example_objects, UpdatePinActive 7 6, InsertObjRefs example_refs]\<rparr>"

definition example_op :: PinningOperation where
  "example_op =
     \<lparr>op_ContId = 7, op_UserId = 1, op_Obj = example_cid 0x70 ''root'', op_Peers = [],
      op_Started = 0, op_Status = ''queued'', op_Replace = 0\<rparr>"

text \<open>The flags an update of a Pin row sets.\<close>

definition mark_active :: "nat \<Rightarrow> 64 word \<Rightarrow> Pin \<Rightarrow> Pin" where
  "mark_active c totalSize p =
     (if pin_Content p = c
      then p\<lparr>pin_Active := True, pin_Size := totalSize, pin_Pinning := False\<rparr> else p)"

definition mark_failed :: "nat \<Rightarrow> Pin \<Rightarrow> Pin" where
  "mark_failed c p =
     (if pin_Content p = c
      then p\<lparr>pin_Pinning := False, pin_Active := False, pin_Failed := True\<rparr> else p)"

subsection \<open>Update reporter (main, lines 262-292; getUpdatePacket, lines 913-931)\<close>

text \<open>\<open>unix.Statfs_t\<close>, the fields read, \<open>uint64(st.Bsize)\<close> already converted.\<close>

record Statfs_t =
  st_Blocks :: "64 word"
  st_Bsize :: "64 word"
  st_Bavail :: "64 word"

text \<open>What one run of \<open>getUpdatePacket\<close> meets: the queue size reported by the pin
  manager, the outcome of \<open>unix.Statfs\<close>, and whether the count query fails.\<close>

record update_env =
  up_PinQueueSize :: nat
  up_Statfs :: "error + Statfs_t"
  up_Count_err :: bool

definition getUpdatePacket :: "update_env \<Rightarrow> DB \<Rightarrow> error + ShuttleUpdate" where
  "getUpdatePacket env db =
     (case up_Statfs env of
        Inl e \<Rightarrow> Inl e
      | Inr st \<Rightarrow>
          if up_Count_err env then Inl DBError
          else Inr \<lparr>PinQueueSize = up_PinQueueSize env,
                    BlockstoreSize = st_Blocks st * st_Bsize st,
                    BlockstoreFree = st_Bavail st * st_Bsize st,
                    NumPins = length (filter pin_Active (pins db))\<rparr>)"

text \<open>Modelled from the spec: \<open>sendRpcMessage\<close> is not among the sources. It submits the
  message to the outbound queue of the RPC session and returns an error when it cannot;
  \<open>send_err\<close> is that outcome, the queue is the list of submitted messages.\<close>

definition sendRpcMessage :: "error option \<Rightarrow> Message \<Rightarrow> Message list \<Rightarrow> (error + unit) \<times> Message list" where
  "sendRpcMessage send_err msg outgoing =
     (case send_err of Some e \<Rightarrow> (Inl e, outgoing) | None \<Rightarrow> (Inr (), outgoing @ [msg]))"

text \<open>One round of the reporter goroutine, the same statements at startup and in the body
  of the ticker loop: get the packet, log an error, then send the message built from
  \<open>upd\<close>, which is nil when \<open>getUpdatePacket\<close> returned an error; an error of the send
  is logged. A round meets the database as it is at that moment.\<close>

record round_env =
  rd_update :: update_env
  rd_DB :: DB
  rd_send_err :: "error option"

definition reporterRound :: "round_env \<Rightarrow> Message list \<Rightarrow> Message list" where
  "reporterRound r outgoing =
     (let upd = (case getUpdatePacket (rd_update r) (rd_DB r) of Inl e \<Rightarrow> None | Inr u \<Rightarrow> Some u)
      in snd (sendRpcMessage (rd_send_err r)
                \<lparr>Op = OP_ShuttleUpdate, Params = no_params\<lparr>par_ShuttleUpdate := upd\<rparr>\<rparr>
                outgoing))"

text \<open>The goroutine: the startup round, then one round per tick of \<open>time.Tick(time.Minute)\<close>.
  The loop never ends; \<open>ticks\<close> are the ticks that have fired so far.\<close>

definition updateReporter :: "round_env \<Rightarrow> round_env list \<Rightarrow> Message list \<Rightarrow> Message list" where
  "updateReporter startup ticks outgoing = fold reporterRound ticks (reporterRound startup outgoing)"

subsection \<open>RPC session (lines 331-415)\<close>

text \<open>Modelled from the spec: \<open>drpc.Hello\<close> and \<open>drpc.Command\<close> are not among the
  sources. A peer identity and a network address are strings, \<open>Pretty()\<close> is the
  identity's string form.\<close>

record Hello =
  hello_Host :: string
  hello_PeerID :: string
  hello_Address :: string
  hello_AddrInfo :: "string \<times> string list"

record Command =
  cmd_Op :: string

text \<open>The node as \<open>getHelloMessage\<close> reads it.\<close>

record node_env =
  nd_hostname :: string
  nd_Wallet_GetDefault :: "error + string"
  nd_Host_ID :: string
  nd_Host_Addrs :: "string list"

definition getHelloMessage :: "node_env \<Rightarrow> error + Hello" where
  "getHelloMessage d =
     (case nd_Wallet_GetDefault d of
        Inl e \<Rightarrow> Inl e
      | Inr addr \<Rightarrow>
          Inr \<lparr>hello_Host = nd_hostname d, hello_PeerID = nd_Host_ID d, hello_Address = addr,
               hello_AddrInfo = (nd_Host_ID d, nd_Host_Addrs d)\<rparr>)"

text \<open>A frame written to the connection.\<close>

datatype frame = HelloFrame Hello | MessageFrame Message

text \<open>What happens during a session, in the order it happens:
  \<^item> \<open>Receive r\<close>: \<open>websocket.JSON.Receive\<close> returns in the read goroutine, with a command
    or an error;
  \<^item> \<open>Outgoing msg r\<close>: the \<open>select\<close> of the write loop takes \<open>msg\<close> from \<open>d.outgoing\<close>
    and \<open>websocket.JSON.Send\<close> returns \<open>r\<close> (an error also when the 30 second deadline
    passes);
  \<^item> \<open>ReadDone\<close>: the \<open>select\<close> takes the \<open>readDone\<close> case.
  The read goroutine returns at its first error and closes \<open>readDone\<close>; from then on no
  \<open>Receive\<close> happens, and only from then on \<open>ReadDone\<close> can be taken. An event that
  cannot happen in the state reached is passed over.\<close>

datatype rpc_event =
    Receive "error + Command"
  | Outgoing Message "error option"
  | ReadDone

text \<open>The two loops of \<open>runRpc\<close> after the hello: \<open>closed\<close> says that \<open>readDone\<close> is
  closed, \<open>fs\<close> are the frames written, \<open>cs\<close> the commands handed to \<open>handleRpcCmd\<close>
  goroutines. The result is \<open>None\<close> while the session is still running at the end of the
  events, and the returned error otherwise.\<close>

fun rpc_loops ::
  "rpc_event list \<Rightarrow> bool \<Rightarrow> frame list \<Rightarrow> Command list \<Rightarrow> (error + unit) option \<times> frame list \<times> Command list" where
  "rpc_loops [] closed fs cs = (None, fs, cs)"
| "rpc_loops (Receive r # evs) closed fs cs =
     (if closed then rpc_loops evs closed fs cs
      else case r of
             Inl e \<Rightarrow> rpc_loops evs True fs cs
           | Inr cmd \<Rightarrow> rpc_loops evs False fs (cs @ [cmd]))"
| "rpc_loops (Outgoing msg r # evs) closed fs cs =
     (case r of
        Some e \<Rightarrow> rpc_loops evs closed fs cs
      | None \<Rightarrow> rpc_loops evs closed (fs @ [MessageFrame msg]) cs)"
| "rpc_loops (ReadDone # evs) closed fs cs =
     (if closed
      then (Some (Inl (ErrorString ''read routine exited, assuming socket is closed'')), fs, cs)
      else rpc_loops evs closed fs cs)"

text \<open>\<open>runRpc\<close>: \<open>hello_send\<close> is the outcome of sending the hello. Every return
  closes the connection (\<open>defer conn.Close()\<close>).\<close>

definition runRpc ::
  "node_env \<Rightarrow> error option \<Rightarrow> rpc_event list \<Rightarrow> (error + unit) option \<times> frame list \<times> Command list" where
  "runRpc d hello_send evs =
     (case getHelloMessage d of
        Inl e \<Rightarrow> (Some (Inl e), [], [])
      | Inr hello \<Rightarrow>
          (case hello_send of
             Some e \<Rightarrow> (Some (Inl e), [], [])
           | None \<Rightarrow> rpc_loops evs False [HelloFrame hello] []))"

text \<open>\<open>RunRpcConnection\<close>: one connection attempt after the other, each with the outcome
  of the dial, of the hello send, and the events of its session. The result lists what
  the supervisor does: the sessions run, with the frames written and the commands
  dispatched, and the seconds slept. The loop has no exit; it is still inside a session
  whose events end while the session runs.\<close>

record attempt =
  at_dial :: "error option"
  at_hello_send :: "error option"
  at_events :: "rpc_event list"

datatype supervisor_step = Sleep nat | Session "frame list" "Command list"

fun RunRpcConnection :: "node_env \<Rightarrow> attempt list \<Rightarrow> supervisor_step list" where
  "RunRpcConnection d [] = []"
| "RunRpcConnection d (a # as) =
     (case at_dial a of
        Some e \<Rightarrow> Sleep 10 # RunRpcConnection d as
      | None \<Rightarrow>
          (case runRpc d (at_hello_send a) (at_events a) of
             (None, fs, cs) \<Rightarrow> [Session fs cs]
           | (Some (Inl e), fs, cs) \<Rightarrow> Session fs cs # Sleep 10 # RunRpcConnection d as
           | (Some (Inr u), fs, cs) \<Rightarrow> Session fs cs # Sleep 1 # RunRpcConnection d as))"

text \<open>The frames written over all sessions of a supervisor run, session by session.\<close>

fun session_frames :: "supervisor_step list \<Rightarrow> frame list list" where
  "session_frames [] = []"
| "session_frames (Sleep n # steps) = session_frames steps"
| "session_frames (Session fs cs # steps) = fs # session_frames steps"

text \<open>Concrete inputs for the reporter and the session.\<close>

definition example_node :: node_env where
  "example_node =
     \<lparr>nd_hostname = ''shuttle.example'', nd_Wallet_GetDefault = Inr ''f1addr'',
      nd_Host_ID = ''12D3peer'', nd_Host_Addrs = [''/ip4/10.0.0.1/tcp/6744'']\<rparr>"

definition example_hello :: Hello where
  "example_hello =
     \<lparr>hello_Host = ''shuttle.example'', hello_PeerID = ''12D3peer'', hello_Address = ''f1addr'',
      hello_AddrInfo = (''12D3peer'', [''/ip4/10.0.0.1/tcp/6744''])\<rparr>"

definition example_msg :: "string \<Rightarrow> Message" where
  "example_msg status =
     \<lparr>Op = ''UpdatePinStatus'',
      Params = no_params\<lparr>par_UpdatePinStatus := Some \<lparr>ups_DBID = 7, ups_Status = status\<rparr>\<rparr>\<rparr>"

definition example_round :: "error + Statfs_t \<Rightarrow> round_env" where
  "example_round statfs =
     \<lparr>rd_update = \<lparr>up_PinQueueSize = 2, up_Statfs = statfs, up_Count_err = False\<rparr>,
      rd_DB = example_db_recorded, rd_send_err = None\<rparr>"

definition example_statfs :: Statfs_t where
  "example_statfs = \<lparr>st_Blocks = 1000, st_Bsize = 4096, st_Bavail = 250\<rparr>"

text \<open>The frames of a session are in order when there are none, or the first is the hello
  of the node and all later ones are messages.\<close>

fun hello_first :: "node_env \<Rightarrow> frame list \<Rightarrow> bool" where
  "hello_first d [] = True"
| "hello_first d (HelloFrame h # rest) =
     (getHelloMessage d = Inr h \<and> list_all (\<lambda>f. case f of HelloFrame h' \<Rightarrow> False | MessageFrame m \<Rightarrow> True) rest)"
| "hello_first d (MessageFrame m # rest) = False"

text \<open>The error \<open>runRpc\<close> returns when the read goroutine has exited.\<close>

definition read_exit :: error where
  "read_exit = ErrorString ''read routine exited, assuming socket is closed''"

subsection \<open>HTTP surface (lines 433-678, 868-911)\<close>

record User =
  usr_ID :: nat
  usr_Username :: string
  usr_Perms :: int
  usr_AuthToken :: string
  usr_StorageDisabled :: bool

text \<open>Modelled from the spec: package \<open>util\<close> is not among the sources. Its message
  constants stand for the machine-readable codes of the structured error body and are
  represented by their names; \<open>PermLevelUser\<close> is the minimum level of the content
  routes and is a parameter of the route below.\<close>

definition ERR_CONTENT_ADDING_DISABLED :: string where
  "ERR_CONTENT_ADDING_DISABLED = ''ERR_CONTENT_ADDING_DISABLED''"

definition ERR_NOT_AUTHORIZED :: string where
  "ERR_NOT_AUTHORIZED = ''ERR_NOT_AUTHORIZED''"

text \<open>\<open>c.JSON(code, map)\<close>: the status code and the fields of the body.\<close>

datatype response = JSON nat "(string \<times> string) list"

text \<open>\<open>util.ViewerResponse\<close> as \<open>checkTokenAuth\<close> reads it, and the answer of the
  coordinator's viewer endpoint: the request's error, or the status code with the two
  decodings of the body the function may attempt.\<close>

record ViewerResponse =
  vr_ID :: nat
  vr_Username :: string
  vr_Perms :: int
  vr_ContentAddingDisabled :: bool

record viewer_reply =
  vw_StatusCode :: nat
  vw_HttpError :: "error + nat \<times> string"
  vw_Viewer :: "error + ViewerResponse"

text \<open>The two errors \<open>checkTokenAuth\<close> makes with \<open>fmt.Errorf\<close>, with their arguments.\<close>

datatype auth_failure =
    UnexpectedError nat
  | CheckFailed string nat

fun auth_error :: "auth_failure \<Rightarrow> error" where
  "auth_error (UnexpectedError code) =
     Wrapped ''authentication check returned unexpected error, code'' (HttpError code [])"
| "auth_error (CheckFailed msg code) =
     Wrapped ''authentication check failed'' (HttpError code msg)"

definition checkTokenAuth :: "(string \<Rightarrow> error + viewer_reply) \<Rightarrow> string \<Rightarrow> error + User" where
  "checkTokenAuth viewer token =
     (case viewer token of
        Inl e \<Rightarrow> Inl e
      | Inr resp \<Rightarrow>
          if vw_StatusCode resp \<noteq> 200 then
            (case vw_HttpError resp of
               Inl e \<Rightarrow> Inl (auth_error (UnexpectedError (vw_StatusCode resp)))
             | Inr (code, msg) \<Rightarrow> Inl (auth_error (CheckFailed msg code)))
          else
            (case vw_Viewer resp of
               Inl e \<Rightarrow> Inl e
             | Inr out \<Rightarrow>
                 Inr \<lparr>usr_ID = vr_ID out, usr_Username = vr_Username out, usr_Perms = vr_Perms out,
                      usr_AuthToken = token, usr_StorageDisabled = vr_ContentAddingDisabled out\<rparr>))"

text \<open>\<open>AuthRequired(level)\<close> composed with \<open>withUser\<close>: \<open>auth\<close> is the outcome of
  \<open>util.ExtractAuth\<close>, \<open>next\<close> the handler, \<open>w\<close> the state the handler works on.\<close>

definition AuthRequired ::
  "int \<Rightarrow> (string \<Rightarrow> error + viewer_reply) \<Rightarrow> error + string \<Rightarrow>
   (User \<Rightarrow> 'w \<Rightarrow> (error + response) \<times> 'w) \<Rightarrow> 'w \<Rightarrow> (error + response) \<times> 'w" where
  "AuthRequired level viewer auth next w =
     (case auth of
        Inl e \<Rightarrow> (Inl e, w)
      | Inr token \<Rightarrow>
          (case checkTokenAuth viewer token of
             Inl e \<Rightarrow> (Inl e, w)
           | Inr u \<Rightarrow>
               if usr_Perms u \<ge> level then next u w
               else (Inl (HttpError 401 ERR_NOT_AUTHORIZED), w)))"

text \<open>\<open>createContent\<close> (lines 637-678): the request body, and the coordinator as a
  function from the bearer token and the body to the decoded \<open>id\<close> of its answer, or the
  error of marshalling, sending or decoding.\<close>

record createContentBody =
  ccb_Root :: Cid
  ccb_Name :: string
  ccb_Collections :: "string list"
  ccb_Location :: string

definition createContent ::
  "(string \<Rightarrow> createContentBody \<Rightarrow> error + nat) \<Rightarrow> string \<Rightarrow> User \<Rightarrow> Cid \<Rightarrow> string \<Rightarrow> string \<Rightarrow> error + nat" where
  "createContent coordinator shuttleHandle u root fname collection =
     (let cols = (if collection \<noteq> [] then [collection] else [])
      in case coordinator (usr_AuthToken u)
                \<lparr>ccb_Root = root, ccb_Name = fname, ccb_Collections = cols,
                 ccb_Location = shuttleHandle\<rparr> of
           Inl e \<Rightarrow> Inl e
         | Inr rid \<Rightarrow>
             if rid = 0
             then Inl (ErrorString ''create content request failed, got back content ID zero'')
             else Inr rid)"

text \<open>\<open>dumpBlockstoreTo\<close> (lines 876-911). A blockstore is the list of its blocks with
  their addresses. \<open>de_Get_fail = Some i\<close> makes the \<open>Get\<close> of key number \<open>i\<close> fail,
  \<open>de_PutMany_fail = Some k\<close> the \<open>PutMany\<close> call number \<open>k\<close> (both from 0).\<close>

record dump_env =
  de_AllKeys_err :: bool
  de_Get_fail :: "nat option"
  de_PutMany_fail :: "nat option"

fun dump_loop ::
  "dump_env \<Rightarrow> NodeGetter \<Rightarrow> nat \<Rightarrow> NodeGetter \<Rightarrow> nat \<Rightarrow> NodeGetter \<Rightarrow> (error + unit) \<times> NodeGetter" where
  "dump_loop env [] i batch k to =
     (if length batch > 0 then
        (if de_PutMany_fail env = Some k then (Inl IOError, to) else (Inr (), to @ batch))
      else (Inr (), to))"
| "dump_loop env (blk # keys) i batch k to =
     (if de_Get_fail env = Some i then (Inl IOError, to)
      else (let batch' = batch @ [blk]
            in if length batch' > 500 then
                 (if de_PutMany_fail env = Some k then (Inl IOError, to)
                  else dump_loop env keys (Suc i) [] (Suc k) (to @ batch'))
               else dump_loop env keys (Suc i) batch' k to))"

definition dumpBlockstoreTo :: "dump_env \<Rightarrow> NodeGetter \<Rightarrow> NodeGetter \<Rightarrow> (error + unit) \<times> NodeGetter" where
  "dumpBlockstoreTo env from to =
     (if de_AllKeys_err env then (Inl IOError, to) else dump_loop env from 0 [] 0 to)"

text \<open>What \<open>handleAdd\<close> works on: the database, the permanent blockstore, and the
  goroutines it has spawned (the provider announcement and the cleanup of the staging
  blockstore).\<close>

datatype spawned = Provide Cid | CleanUp

record world =
  w_DB :: DB
  w_Blockstore :: NodeGetter
  w_spawned :: "spawned list"

text \<open>The request and the outcomes of the calls of \<open>handleAdd\<close>: the multipart form,
  the \<open>data\<close> file and its name, the \<open>collection\<close> field, the allocation of a staging
  blockstore, the import (the root address and the staging blockstore it filled), the
  coordinator, the creation time and the insert of the Pin row, walk-and-record, and the
  move to permanent storage.\<close>

record add_env =
  ae_MultipartForm_err :: "error option"
  ae_FormFile :: "error + string"
  ae_Open_err :: "error option"
  ae_collection :: string
  ae_AllocNew_err :: "error option"
  ae_importFile :: "error + Cid \<times> NodeGetter"
  ae_coordinator :: "string \<Rightarrow> createContentBody \<Rightarrow> error + nat"
  ae_now :: nat
  ae_Create_err :: bool
  ae_track :: track_env
  ae_dump :: dump_env

text \<open>The part of \<open>handleAdd\<close> after the cleanup of the staging blockstore has been
  deferred (lines 583-623).\<close>

definition handleAdd_staged :: "add_env \<Rightarrow> string \<Rightarrow> User \<Rightarrow> string \<Rightarrow> world \<Rightarrow> (error + response) \<times> world" where
  "handleAdd_staged env shuttleHandle u fname w =
     (case ae_importFile env of
        Inl e \<Rightarrow> (Inl e, w)
      | Inr (root, bs) \<Rightarrow>
          (case createContent (ae_coordinator env) shuttleHandle u root fname (ae_collection env) of
             Inl e \<Rightarrow> (Inl e, w)
           | Inr contid \<Rightarrow>
               (case insert_pin \<lparr>pin_ID = 0, pin_Content = contid, pin_Cid = root,
                                 pin_UserID = usr_ID u, pin_Active = False, pin_Pinning = True,
                                 pin_Failed = False, pin_Size = 0, pin_CreatedAt = ae_now env\<rparr>
                       (ae_Create_err env) (w_DB w) of
                  (Inl e, db1) \<Rightarrow> (Inl e, w\<lparr>w_DB := db1\<rparr>)
                | (Inr pin, db1) \<Rightarrow>
                    (case addDatabaseTrackingToContent (ae_track env) bs contid root db1 of
                       (Inl e, db2) \<Rightarrow>
                         (Inl (Wrapped ''encountered problem computing object references'' e),
                          w\<lparr>w_DB := db2\<rparr>)
                     | (Inr r, db2) \<Rightarrow>
                         (case dumpBlockstoreTo (ae_dump env) bs (w_Blockstore w) of
                            (Inl e, to) \<Rightarrow>
                              (Inl (Wrapped ''failed to move data from staging to main blockstore'' e),
                               w\<lparr>w_DB := db2, w_Blockstore := to\<rparr>)
                          | (Inr ok, to) \<Rightarrow>
                              (Inr (JSON 200 [(''cid'', cid_String root)]),
                               w\<lparr>w_DB := db2, w_Blockstore := to,
                                 w_spawned := w_spawned w @ [Provide root]\<rparr>))))))"

text \<open>\<open>handleAdd\<close> (lines 539-624). The deferred \<open>form.RemoveAll()\<close> and
  \<open>fi.Close()\<close> touch nothing of the state below; the deferred cleanup of the staging
  blockstore is spawned on every return after the allocation.\<close>

definition handleAdd :: "add_env \<Rightarrow> string \<Rightarrow> User \<Rightarrow> world \<Rightarrow> (error + response) \<times> world" where
  "handleAdd env shuttleHandle u w =
     (if usr_StorageDisabled u then (Inl (HttpError 400 ERR_CONTENT_ADDING_DISABLED), w)
      else case ae_MultipartForm_err env of
             Some e \<Rightarrow> (Inl e, w)
           | None \<Rightarrow>
               (case ae_FormFile env of
                  Inl e \<Rightarrow> (Inl e, w)
                | Inr fname \<Rightarrow>
                    (case ae_Open_err env of
                       Some e \<Rightarrow> (Inl e, w)
                     | None \<Rightarrow>
                         (case ae_AllocNew_err env of
                            Some e \<Rightarrow> (Inl e, w)
                          | None \<Rightarrow>
                              (let (res, w') = handleAdd_staged env shuttleHandle u fname w
                               in (res, w'\<lparr>w_spawned := w_spawned w' @ [CleanUp]\<rparr>))))))"

text \<open>The route \<open>POST /content/add\<close> as \<open>ServeAPI\<close> registers it.\<close>

definition content_add_route ::
  "int \<Rightarrow> (string \<Rightarrow> error + viewer_reply) \<Rightarrow> error + string \<Rightarrow> add_env \<Rightarrow> string \<Rightarrow> world \<Rightarrow>
   (error + response) \<times> world" where
  "content_add_route PermLevelUser viewer auth env shuttleHandle w =
     AuthRequired PermLevelUser viewer auth (handleAdd env shuttleHandle) w"

text \<open>Concrete inputs for the route: a viewer endpoint that knows two tokens, of a user
  allowed to add content and of one with content adding disabled, and an upload whose
  import yields the example graph.\<close>

definition example_viewer :: "string \<Rightarrow> error + viewer_reply" where
  "example_viewer token =
     (if token = ''tok-ok'' then
        Inr \<lparr>vw_StatusCode = 200, vw_HttpError = Inl IOError,
             vw_Viewer = Inr \<lparr>vr_ID = 3, vr_Username = ''alice'', vr_Perms = 2,
                               vr_ContentAddingDisabled = False\<rparr>\<rparr>
      else if token = ''tok-disabled'' then
        Inr \<lparr>vw_StatusCode = 200, vw_HttpError = Inl IOError,
             vw_Viewer = Inr \<lparr>vr_ID = 2, vr_Username = ''bob'', vr_Perms = 2,
                               vr_ContentAddingDisabled = True\<rparr>\<rparr>
      else
        Inr \<lparr>vw_StatusCode = 401, vw_HttpError = Inr (401, ERR_NOT_AUTHORIZED),
             vw_Viewer = Inl IOError\<rparr>)"

definition example_add_env :: add_env where
  "example_add_env =
     \<lparr>ae_MultipartForm_err = None, ae_FormFile = Inr ''file.bin'', ae_Open_err = None,
      ae_collection = [], ae_AllocNew_err = None,
      ae_importFile = Inr (example_cid 0x70 ''root'', example_dserv),
      ae_coordinator = (\<lambda>token body. Inr 12), ae_now = 5, ae_Create_err = False,
      ae_track = no_track_errors,
      ae_dump = \<lparr>de_AllKeys_err = False, de_Get_fail = None, de_PutMany_fail = None\<rparr>\<rparr>"

definition example_world :: world where
  "example_world = \<lparr>w_DB = example_db, w_Blockstore = [], w_spawned = []\<rparr>"

text \<open>The Pin row the example upload creates, its ObjRef rows, and the state after the
  upload has been handled.\<close>

definition example_new_pin :: Pin where
  "example_new_pin =
     \<lparr>pin_ID = 8, pin_Content = 12, pin_Cid = example_cid 0x70 ''root'', pin_UserID = 3,
      pin_Active = False, pin_Pinning = True, pin_Failed = False, pin_Size = 0,
      pin_CreatedAt = 5\<rparr>"

definition example_new_refs :: "ObjRef list" where
  "example_new_refs =
     [\<lparr>ref_ID = 1, ref_Pin = 8, ref_Object = 1\<rparr>,
      \<lparr>ref_ID = 2, ref_Pin = 8, ref_Object = 2\<rparr>,
      \<lparr>ref_ID = 3, ref_Pin = 8, ref_Object = 3\<rparr>]"

definition example_world_added :: world where
  "example_world_added =
     \<lparr>w_DB =
        \<lparr>pins = [example_pin 1 7, example_pin 7 9,
                 example_new_pin\<lparr>pin_Active := True, pin_Size := 6, pin_Pinning := False\<rparr>],
         objects = example_objects,
         obj_refs = example_new_refs,
         db_log = [InsertPin example_new_pin, InsertObjects example_objects,
                   UpdatePinActive 12 6, InsertObjRefs example_new_refs]\<rparr>,
      w_Blockstore = example_dserv,
      w_spawned = [Provide (example_cid 0x70 ''root''), CleanUp]\<rparr>"

definition example_user :: "nat \<Rightarrow> string \<Rightarrow> string \<Rightarrow> bool \<Rightarrow> User" where
  "example_user i name token disabled =
     \<lparr>usr_ID = i, usr_Username = name, usr_Perms = 2, usr_AuthToken = token,
      usr_StorageDisabled = disabled\<rparr>"

text \<open>The Objects the walk of the example graph records, before they get their keys.\<close>

definition example_walked :: "Object list" where
  "example_walked =
     [\<lparr>obj_ID = 0, obj_Cid = example_cid 0x70 ''root'', obj_Size = 2\<rparr>,
      \<lparr>obj_ID = 0, obj_Cid = example_cid 0x55 ''a'', obj_Size = 3\<rparr>,
      \<lparr>obj_ID = 0, obj_Cid = example_cid 0x55 ''b'', obj_Size = 1\<rparr>]"

section \<open>Properties of the channel tracker\<close>

lemma changes_from_remdups_adj:
  "changes_from l ss =
     (case l of None \<Rightarrow> remdups_adj ss | Some a \<Rightarrow> tl (remdups_adj (a # ss)))"
proof (induction ss arbitrary: l)
  case Nil
  show ?case by (simp split: option.splits)
next
  case (Cons s ss)
  show ?case
    by (cases l) (auto simp: Cons.IH remdups_adj_Cons split: list.splits)
qed

lemma onTransferEvent_untracked:
  "tc (dt_ChannelID st) = None \<Longrightarrow> onTransferEvent tc ev st = (tc, [])"
  by (simp add: onTransferEvent_def)

lemma onTransferEvent_other_channel:
  assumes "dt_ChannelID st \<noteq> c"
  shows "fst (onTransferEvent tc ev st) c = tc c"
    and "emitted_statuses c (snd (onTransferEvent tc ev st)) = []"
  using assms
  by (auto simp: onTransferEvent_def emitted_statuses_def Let_def split: option.splits)

lemma onTransferEvent_same_channel:
  assumes "dt_ChannelID st = c" and "tc c = Some trk"
  shows "emitted_statuses c (snd (onTransferEvent tc ev st)) =
           changes_from (map_option cs_Status (trk_last trk)) [dt_Status st]"
    and "\<exists>trk'. fst (onTransferEvent tc ev st) c = Some trk' \<and>
           map_option cs_Status (trk_last trk') = Some (dt_Status st)"
  using assms
  by (auto simp: onTransferEvent_def emitted_statuses_def Let_def ChannelStateConv_def
      split: option.splits)

lemma emitted_statuses_append:
  "emitted_statuses c (xs @ ys) = emitted_statuses c xs @ emitted_statuses c ys"
  by (simp add: emitted_statuses_def)

lemma onTransferEvents_tracked:
  "tc c = Some trk \<Longrightarrow>
   emitted_statuses c (snd (onTransferEvents tc evs)) =
     changes_from (map_option cs_Status (trk_last trk)) (delivered_statuses c evs)"
proof (induction evs arbitrary: tc trk)
  case Nil
  show ?case by (simp add: emitted_statuses_def delivered_statuses_def)
next
  case (Cons e evs)
  obtain ev st where e: "e = (ev, st)" by (cases e)
  obtain tc1 out1 where s1: "onTransferEvent tc ev st = (tc1, out1)"
    by (cases "onTransferEvent tc ev st")
  obtain tc2 out2 where s2: "onTransferEvents tc1 evs = (tc2, out2)"
    by (cases "onTransferEvents tc1 evs")
  have unfold: "snd (onTransferEvents tc (e # evs)) = out1 @ out2"
    by (simp add: e s1 s2)
  have del: "delivered_statuses c (e # evs) =
      (if dt_ChannelID st = c then dt_Status st # delivered_statuses c evs
       else delivered_statuses c evs)"
    by (simp add: e delivered_statuses_def)
  show ?case
  proof (cases "dt_ChannelID st = c")
    case True
    from onTransferEvent_same_channel [of st c tc trk ev] True Cons.prems s1
    obtain trk' where t: "tc1 c = Some trk'"
      and l: "map_option cs_Status (trk_last trk') = Some (dt_Status st)"
      and o: "emitted_statuses c out1 =
                changes_from (map_option cs_Status (trk_last trk)) [dt_Status st]"
      by auto
    have "emitted_statuses c out2 = changes_from (Some (dt_Status st)) (delivered_statuses c evs)"
      using Cons.IH [of tc1 trk'] t s2 l by simp
    then show ?thesis
      unfolding unfold del emitted_statuses_append using True o
      by (cases "trk_last trk") auto
  next
    case False
    from onTransferEvent_other_channel [of st c tc ev] False s1 Cons.prems
    have t: "tc1 c = Some trk" and o: "emitted_statuses c out1 = []" by auto
    have "emitted_statuses c out2 =
            changes_from (map_option cs_Status (trk_last trk)) (delivered_statuses c evs)"
      using Cons.IH [of tc1 trk] t s2 by simp
    then show ?thesis
      unfolding unfold del emitted_statuses_append using False o by simp
  qed
qed

text \<open>
  Claim C5, as the code has it. For a tracked channel with no status recorded yet, the
  statuses of the \<open>TransferStatus\<close> messages spawned for it are the delivered statuses
  with every run of equal neighbours collapsed to one (one message per change of status,
  not one per distinct value). An event whose status equals the recorded one spawns
  nothing and leaves the tracker as it is, and so does an event for a channel without a
  tracker entry.
\<close>

theorem C5_tracker_emits_on_change:
  "(tc c = Some trk \<and> trk_last trk = None \<longrightarrow>
      emitted_statuses c (snd (onTransferEvents tc evs)) = remdups_adj (delivered_statuses c evs))
   \<and> (tc' (dt_ChannelID st') = Some trk' \<and> trk_last trk' = Some l \<and> cs_Status l = dt_Status st' \<longrightarrow>
      onTransferEvent tc' ev' st' = (tc', []))
   \<and> (tc'' (dt_ChannelID st'') = None \<longrightarrow> onTransferEvent tc'' ev'' st'' = (tc'', []))"
proof (intro conjI impI)
  assume "tc c = Some trk \<and> trk_last trk = None"
  then show "emitted_statuses c (snd (onTransferEvents tc evs)) = remdups_adj (delivered_statuses c evs)"
    using onTransferEvents_tracked [of tc c trk evs] by (simp add: changes_from_remdups_adj)
next
  assume "tc' (dt_ChannelID st') = Some trk' \<and> trk_last trk' = Some l \<and> cs_Status l = dt_Status st'"
  then show "onTransferEvent tc' ev' st' = (tc', [])"
    by (simp add: onTransferEvent_def)
next
  assume "tc'' (dt_ChannelID st'') = None"
  then show "onTransferEvent tc'' ev'' st'' = (tc'', [])"
    by (rule onTransferEvent_untracked)
qed

theorem C5_tracker_emits_on_change_witness:
  "emitted_statuses ''c''
      (snd (onTransferEvents [''c'' \<mapsto> \<lparr>dbid = 7, trk_last = None\<rparr>]
         [transfer_event ''c'' 1, transfer_event ''c'' 1, transfer_event ''d'' 5,
          transfer_event ''c'' 2, transfer_event ''c'' 2]))
     = [1, 2]
   \<and> onTransferEvent
        [''c'' \<mapsto> \<lparr>dbid = 7, trk_last = Some (ChannelStateConv (snd (transfer_event ''c'' 3)))\<rparr>]
        (fst (transfer_event ''c'' 3)) (snd (transfer_event ''c'' 3))
     = ([''c'' \<mapsto> \<lparr>dbid = 7, trk_last = Some (ChannelStateConv (snd (transfer_event ''c'' 3)))\<rparr>], [])
   \<and> onTransferEvent [''c'' \<mapsto> \<lparr>dbid = 7, trk_last = None\<rparr>]
        (fst (transfer_event ''d'' 3)) (snd (transfer_event ''d'' 3))
     = ([''c'' \<mapsto> \<lparr>dbid = 7, trk_last = None\<rparr>], [])"
  using C5_tracker_emits_on_change
    [of "[''c'' \<mapsto> \<lparr>dbid = 7, trk_last = None\<rparr>]" "''c''" "\<lparr>dbid = 7, trk_last = None\<rparr>"
        "[transfer_event ''c'' 1, transfer_event ''c'' 1, transfer_event ''d'' 5,
          transfer_event ''c'' 2, transfer_event ''c'' 2]"
        "[''c'' \<mapsto> \<lparr>dbid = 7, trk_last = Some (ChannelStateConv (snd (transfer_event ''c'' 3)))\<rparr>]"
        "snd (transfer_event ''c'' 3)"
        "\<lparr>dbid = 7, trk_last = Some (ChannelStateConv (snd (transfer_event ''c'' 3)))\<rparr>"
        "ChannelStateConv (snd (transfer_event ''c'' 3))"
        "fst (transfer_event ''c'' 3)"
        "[''c'' \<mapsto> \<lparr>dbid = 7, trk_last = None\<rparr>]"
        "snd (transfer_event ''d'' 3)" "fst (transfer_event ''d'' 3)"]
  by (simp add: transfer_event_def ChannelStateConv_def delivered_statuses_def)

text \<open>
  Claim C5 as stated fails: for the statuses 1, 2, 1 delivered to a tracked channel the
  tracker spawns three messages (1, 2, 1), while one message per distinct status value in
  order of first occurrence would be the two messages 1, 2.
\<close>

theorem C5_one_per_distinct_status_counterexample:
  "emitted_statuses ''c''
      (snd (onTransferEvents [''c'' \<mapsto> \<lparr>dbid = 7, trk_last = None\<rparr>]
         [transfer_event ''c'' 1, transfer_event ''c'' 2, transfer_event ''c'' 1]))
   \<noteq> first_occurrences
      (delivered_statuses ''c''
         [transfer_event ''c'' 1, transfer_event ''c'' 2, transfer_event ''c'' 1])"
  by (simp add: transfer_event_def emitted_statuses_def delivered_statuses_def
      onTransferEvent_def ChannelStateConv_def Let_def)

section \<open>Batched inserts\<close>

lemma batches_map: "batches n (map f xs) = map (map f) (batches n xs)"
proof (induction n xs rule: batches.induct)
  case (1 n xs)
  show ?case
  proof (cases "n = 0 \<or> xs = []")
    case True
    then show ?thesis by (auto simp: batches.simps)
  next
    case False
    with 1 have "batches n (map f (drop n xs)) = map (map f) (batches n (drop n xs))" by simp
    with False show ?thesis
      by (subst batches.simps, subst (2) batches.simps) (simp add: take_map drop_map)
  qed
qed

lemma concat_batches: "0 < n \<Longrightarrow> concat (batches n xs) = xs"
proof (induction n xs rule: batches.induct)
  case (1 n xs)
  show ?case
  proof (cases "xs = []")
    case True
    then show ?thesis by (simp add: batches.simps)
  next
    case False
    with 1 have "concat (batches n (drop n xs)) = drop n xs" by simp
    with False 1(2) show ?thesis
      by (subst batches.simps) simp
  qed
qed

lemma same_shape_same_concat:
  "map (map f) A = map (map f) B \<Longrightarrow> concat A = concat B \<Longrightarrow> A = B"
proof (induction A arbitrary: B)
  case Nil
  then show ?case by simp
next
  case (Cons a A)
  then obtain b B' where B: "B = b # B'" by (cases B) auto
  with Cons.prems have "map f a = map f b" and m: "map (map f) A = map (map f) B'" by auto
  then have "length a = length b" by (metis length_map)
  with Cons.prems(2) B have "a = b" and "concat A = concat B'" by auto
  with Cons.IH [OF m] B show ?case by simp
qed

lemma assign_object_ids_strip:
  "map (\<lambda>ob. ob\<lparr>obj_ID := 0\<rparr>) (assign_object_ids n xs) = map (\<lambda>ob. ob\<lparr>obj_ID := 0\<rparr>) xs"
  by (induction xs arbitrary: n) auto

lemma assign_ref_ids_strip:
  "map (\<lambda>r. r\<lparr>ref_ID := 0\<rparr>) (assign_ref_ids n xs) = map (\<lambda>r. r\<lparr>ref_ID := 0\<rparr>) xs"
  by (induction xs arbitrary: n) auto

lemma create_batches_effect:
  fixes ins :: "'r list \<Rightarrow> DB \<Rightarrow> 'r list \<times> DB" and tbl :: "DB \<Rightarrow> 'r list" and oth :: "DB \<Rightarrow> 'o"
  assumes ins: "\<And>b db b' db1. ins b db = (b', db1) \<Longrightarrow>
      map strip b' = map strip b \<and> tbl db1 = tbl db @ b' \<and>
      db_log db1 = db_log db @ [mk b'] \<and> pins db1 = pins db \<and> oth db1 = oth db"
  shows "create_batches ins fail i bs db = (res, db') \<Longrightarrow>
   pins db' = pins db \<and> oth db' = oth db \<and>
   (\<forall>rows. res = Inr rows \<longrightarrow>
      (\<exists>bs'. rows = concat bs' \<and> map (map strip) bs' = map (map strip) bs \<and>
         tbl db' = tbl db @ rows \<and> db_log db' = db_log db @ map mk bs'))"
proof (induction bs arbitrary: i db res db')
  case Nil
  then show ?case by auto
next
  case (Cons b bs)
  show ?case
  proof (cases "fail = Some i")
    case True
    with Cons.prems show ?thesis by auto
  next
    case False
    obtain b' db1 where insb: "ins b db = (b', db1)" by (cases "ins b db")
    obtain res2 db2 where rec: "create_batches ins fail (Suc i) bs db1 = (res2, db2)"
      by (cases "create_batches ins fail (Suc i) bs db1")
    from ins [OF insb] have b': "map strip b' = map strip b"
      and db1: "pins db1 = pins db" "oth db1 = oth db" "tbl db1 = tbl db @ b'"
        "db_log db1 = db_log db @ [mk b']"
      by auto
    note IH = Cons.IH [OF rec]
    show ?thesis
    proof (cases res2)
      case (Inl e)
      with Cons.prems False insb rec have "res = Inl e" "db' = db2" by auto
      with IH db1 show ?thesis by simp
    next
      case (Inr rest)
      with Cons.prems False insb rec have res: "res = Inr (b' @ rest)" and db': "db' = db2" by auto
      from IH Inr obtain bs' where bs': "rest = concat bs'"
        "map (map strip) bs' = map (map strip) bs"
        "tbl db2 = tbl db1 @ rest" "db_log db2 = db_log db1 @ map mk bs'"
        by auto
      have "b' @ rest = concat (b' # bs') \<and>
            map (map strip) (b' # bs') = map (map strip) (b # bs) \<and>
            tbl db2 = tbl db @ b' @ rest \<and>
            db_log db2 = db_log db @ map mk (b' # bs')"
        using bs' b' db1 by simp
      then have "\<exists>bs''. b' @ rest = concat bs'' \<and>
            map (map strip) bs'' = map (map strip) (b # bs) \<and>
            tbl db2 = tbl db @ b' @ rest \<and>
            db_log db2 = db_log db @ map mk bs''"
        by (rule exI)
      then show ?thesis using IH db1 res db' by simp
    qed
  qed
qed


lemma CreateInBatches_effect:
  fixes ins :: "'r list \<Rightarrow> DB \<Rightarrow> 'r list \<times> DB" and tbl :: "DB \<Rightarrow> 'r list" and oth :: "DB \<Rightarrow> 'o"
  assumes ins: "\<And>b db b' db1. ins b db = (b', db1) \<Longrightarrow>
      map strip b' = map strip b \<and> tbl db1 = tbl db @ b' \<and>
      db_log db1 = db_log db @ [mk b'] \<and> pins db1 = pins db \<and> oth db1 = oth db"
    and run: "CreateInBatches ins fail rows n db = (res, db')" and n: "0 < n"
  shows "pins db' = pins db" and "oth db' = oth db"
    and "res = Inr rows' \<Longrightarrow>
           map strip rows' = map strip rows \<and> tbl db' = tbl db @ rows' \<and>
           db_log db' = db_log db @ map mk (batches n rows')"
proof -
  note eff = create_batches_effect [of ins strip tbl mk oth fail 0 "batches n rows" db res db', OF ins]
  from run have cb: "create_batches ins fail 0 (batches n rows) db = (res, db')"
    by (simp add: CreateInBatches_def)
  from eff [OF _ cb] show "pins db' = pins db" and "oth db' = oth db" by blast+
  assume "res = Inr rows'"
  with eff [OF _ cb] obtain bs' where bs': "rows' = concat bs'"
    "map (map strip) bs' = map (map strip) (batches n rows)"
    "tbl db' = tbl db @ rows'" "db_log db' = db_log db @ map mk bs'"
    by blast
  have "map strip rows' = concat (map (map strip) bs')"
    using bs'(1) by (simp add: map_concat)
  also have "\<dots> = map strip (concat (batches n rows))"
    using bs'(2) by (simp add: map_concat)
  finally have strip: "map strip rows' = map strip rows"
    using n by (simp add: concat_batches)
  have "map (map strip) bs' = map (map strip) (batches n rows')"
    using bs'(2) strip by (simp add: batches_map [symmetric])
  moreover have "concat bs' = concat (batches n rows')"
    using bs'(1) n by (simp add: concat_batches)
  ultimately have bs: "bs' = batches n rows'"
    by (rule same_shape_same_concat)
  have log: "db_log db' = db_log db @ map mk (batches n rows')"
    unfolding bs [symmetric] by (rule bs'(4))
  from strip bs'(3) log
  show "map strip rows' = map strip rows \<and> tbl db' = tbl db @ rows' \<and>
           db_log db' = db_log db @ map mk (batches n rows')"
    by (intro conjI)
qed

lemma insert_objects_effect:
  "insert_objects b db = (b', db1) \<Longrightarrow>
      map (\<lambda>ob. ob\<lparr>obj_ID := 0\<rparr>) b' = map (\<lambda>ob. ob\<lparr>obj_ID := 0\<rparr>) b \<and> objects db1 = objects db @ b' \<and>
      db_log db1 = db_log db @ [InsertObjects b'] \<and> pins db1 = pins db \<and> obj_refs db1 = obj_refs db"
  by (auto simp: insert_objects_def Let_def assign_object_ids_strip)

lemma insert_obj_refs_effect:
  "insert_obj_refs b db = (b', db1) \<Longrightarrow>
      map (\<lambda>r. r\<lparr>ref_ID := 0\<rparr>) b' = map (\<lambda>r. r\<lparr>ref_ID := 0\<rparr>) b \<and> obj_refs db1 = obj_refs db @ b' \<and>
      db_log db1 = db_log db @ [InsertObjRefs b'] \<and> pins db1 = pins db \<and> objects db1 = objects db"
  by (auto simp: insert_obj_refs_def Let_def assign_ref_ids_strip)

lemma CreateInBatches_objects:
  assumes "CreateInBatches insert_objects fail rows n db = (res, db')" and "0 < n"
  shows "pins db' = pins db" and "obj_refs db' = obj_refs db"
    and "res = Inr rows' \<Longrightarrow>
           map (\<lambda>ob. ob\<lparr>obj_ID := 0\<rparr>) rows' = map (\<lambda>ob. ob\<lparr>obj_ID := 0\<rparr>) rows \<and>
           objects db' = objects db @ rows' \<and>
           db_log db' = db_log db @ map InsertObjects (batches n rows')"
proof -
  have ins: "\<And>b db b' db1. insert_objects b db = (b', db1) \<Longrightarrow>
      map (\<lambda>ob. ob\<lparr>obj_ID := 0\<rparr>) b' = map (\<lambda>ob. ob\<lparr>obj_ID := 0\<rparr>) b \<and>
      objects db1 = objects db @ b' \<and> db_log db1 = db_log db @ [InsertObjects b'] \<and>
      pins db1 = pins db \<and> obj_refs db1 = obj_refs db"
    by (rule insert_objects_effect)
  note eff = CreateInBatches_effect [where ins = insert_objects and tbl = objects
      and mk = InsertObjects and oth = obj_refs and strip = "\<lambda>ob. ob\<lparr>obj_ID := 0\<rparr>", OF ins assms]
  show "pins db' = pins db" by (rule eff(1))
  show "obj_refs db' = obj_refs db" by (rule eff(2))
  show "res = Inr rows' \<Longrightarrow>
           map (\<lambda>ob. ob\<lparr>obj_ID := 0\<rparr>) rows' = map (\<lambda>ob. ob\<lparr>obj_ID := 0\<rparr>) rows \<and>
           objects db' = objects db @ rows' \<and>
           db_log db' = db_log db @ map InsertObjects (batches n rows')"
    by (rule eff(3))
qed

lemma CreateInBatches_obj_refs:
  assumes "CreateInBatches insert_obj_refs fail rows n db = (res, db')" and "0 < n"
  shows "pins db' = pins db" and "objects db' = objects db"
    and "res = Inr rows' \<Longrightarrow>
           map (\<lambda>r. r\<lparr>ref_ID := 0\<rparr>) rows' = map (\<lambda>r. r\<lparr>ref_ID := 0\<rparr>) rows \<and>
           obj_refs db' = obj_refs db @ rows' \<and>
           db_log db' = db_log db @ map InsertObjRefs (batches n rows')"
proof -
  have ins: "\<And>b db b' db1. insert_obj_refs b db = (b', db1) \<Longrightarrow>
      map (\<lambda>r. r\<lparr>ref_ID := 0\<rparr>) b' = map (\<lambda>r. r\<lparr>ref_ID := 0\<rparr>) b \<and>
      obj_refs db1 = obj_refs db @ b' \<and> db_log db1 = db_log db @ [InsertObjRefs b'] \<and>
      pins db1 = pins db \<and> objects db1 = objects db"
    by (rule insert_obj_refs_effect)
  note eff = CreateInBatches_effect [where ins = insert_obj_refs and tbl = obj_refs
      and mk = InsertObjRefs and oth = objects and strip = "\<lambda>r. r\<lparr>ref_ID := 0\<rparr>", OF ins assms]
  show "pins db' = pins db" by (rule eff(1))
  show "objects db' = objects db" by (rule eff(2))
  show "res = Inr rows' \<Longrightarrow>
           map (\<lambda>r. r\<lparr>ref_ID := 0\<rparr>) rows' = map (\<lambda>r. r\<lparr>ref_ID := 0\<rparr>) rows \<and>
           obj_refs db' = obj_refs db @ rows' \<and>
           db_log db' = db_log db @ map InsertObjRefs (batches n rows')"
    by (rule eff(3))
qed

section \<open>Walk-and-record\<close>

lemma UpdateColumns_active_effect:
  "UpdateColumns_active c t err db = (res, db') \<Longrightarrow>
     objects db' = objects db \<and> obj_refs db' = obj_refs db \<and>
     (res = Inl DBError \<and> db' = db \<or>
      res = Inr () \<and> pins db' = map (mark_active c t) (pins db) \<and>
        db_log db' = db_log db @ [UpdatePinActive c t])"
  by (auto simp: UpdateColumns_active_def mark_active_def split: if_splits)

lemma UpdateColumns_failed_effect:
  "UpdateColumns_failed c err db = (res, db') \<Longrightarrow>
     objects db' = objects db \<and> obj_refs db' = obj_refs db \<and>
     (res = Inl DBError \<and> db' = db \<or>
      res = Inr () \<and> pins db' = map (mark_failed c) (pins db) \<and>
        db_log db' = db_log db @ [UpdatePinFailed c])"
  by (auto simp: UpdateColumns_failed_def mark_failed_def split: if_splits)

text \<open>The stages of addDatabaseTrackingToContent.\<close>

lemma track_cases:
  assumes run: "addDatabaseTrackingToContent env dserv contid root db = (res, db')"
  obtains (first) e where "First_pin (\<lambda>p. pin_Content p = contid) (te_First_err env) db = Inl e"
      "res = Inl e" "db' = db"
  | (walk) dbpin e where "First_pin (\<lambda>p. pin_Content p = contid) (te_First_err env) db = Inr dbpin"
      "Walk dserv [root] [] ([], 0) = Inl e" "res = Inl e" "db' = db"
  | (objs) dbpin objects0 totalSize e where
      "First_pin (\<lambda>p. pin_Content p = contid) (te_First_err env) db = Inr dbpin"
      "Walk dserv [root] [] ([], 0) = Inr (objects0, totalSize)"
      "CreateInBatches insert_objects (te_Objects_fail env) objects0 300 db = (Inl e, db')"
      "res = Inl (Wrapped ''failed to create objects in db'' e)"
  | (update) dbpin objects0 totalSize objs db1 e where
      "First_pin (\<lambda>p. pin_Content p = contid) (te_First_err env) db = Inr dbpin"
      "Walk dserv [root] [] ([], 0) = Inr (objects0, totalSize)"
      "CreateInBatches insert_objects (te_Objects_fail env) objects0 300 db = (Inr objs, db1)"
      "UpdateColumns_active contid totalSize (te_Update_err env) db1 = (Inl e, db')"
      "res = Inl (Wrapped ''failed to update content in database'' e)"
  | (refs) dbpin objects0 totalSize objs db1 db2 e where
      "First_pin (\<lambda>p. pin_Content p = contid) (te_First_err env) db = Inr dbpin"
      "Walk dserv [root] [] ([], 0) = Inr (objects0, totalSize)"
      "CreateInBatches insert_objects (te_Objects_fail env) objects0 300 db = (Inr objs, db1)"
      "UpdateColumns_active contid totalSize (te_Update_err env) db1 = (Inr (), db2)"
      "CreateInBatches insert_obj_refs (te_Refs_fail env)
         (map (\<lambda>ob. \<lparr>ref_ID = 0, ref_Pin = pin_ID dbpin, ref_Object = obj_ID ob\<rparr>) objs) 500 db2
       = (Inl e, db')"
      "res = Inl (Wrapped ''failed to create refs'' e)"
  | (success) dbpin objects0 totalSize objs db1 db2 rs where
      "First_pin (\<lambda>p. pin_Content p = contid) (te_First_err env) db = Inr dbpin"
      "Walk dserv [root] [] ([], 0) = Inr (objects0, totalSize)"
      "CreateInBatches insert_objects (te_Objects_fail env) objects0 300 db = (Inr objs, db1)"
      "UpdateColumns_active contid totalSize (te_Update_err env) db1 = (Inr (), db2)"
      "CreateInBatches insert_obj_refs (te_Refs_fail env)
         (map (\<lambda>ob. \<lparr>ref_ID = 0, ref_Pin = pin_ID dbpin, ref_Object = obj_ID ob\<rparr>) objs) 500 db2
       = (Inr rs, db')"
      "res = Inr (pin_Content dbpin, totalSize, objs)"
  using run unfolding addDatabaseTrackingToContent_def Let_def
  by (auto split: sum.splits prod.splits)


lemma First_pin_Inr:
  "First_pin cond err db = Inr p \<Longrightarrow> cond p \<and> p \<in> set (pins db) \<and> \<not> err"
proof -
  assume a: "First_pin cond err db = Inr p"
  then obtain ps where "sort_key pin_ID (filter cond (pins db)) = p # ps"
    by (auto simp: First_pin_def split: if_splits list.splits)
  then have "p \<in> set (sort_key pin_ID (filter cond (pins db)))" by simp
  then have "p \<in> set (filter cond (pins db))" by simp
  with a show ?thesis by (auto simp: First_pin_def split: if_splits)
qed

lemma First_pin_Inl:
  "First_pin cond err db = Inl e \<Longrightarrow>
     (err \<and> e = DBError) \<or> (\<not> err \<and> e = ErrRecordNotFound \<and> (\<forall>p \<in> set (pins db). \<not> cond p))"
proof -
  assume a: "First_pin cond err db = Inl e"
  show ?thesis
  proof (cases err)
    case True
    with a show ?thesis by (simp add: First_pin_def)
  next
    case False
    with a have "sort_key pin_ID (filter cond (pins db)) = []" and "e = ErrRecordNotFound"
      by (auto simp: First_pin_def split: list.splits)
    then have "set (sort_key pin_ID (filter cond (pins db))) = {}" by simp
    then have "set (filter cond (pins db)) = {}" by simp
    with False \<open>e = ErrRecordNotFound\<close> show ?thesis by auto
  qed
qed

lemma First_pin_exists:
  "\<not> err \<Longrightarrow> q \<in> set (pins db) \<Longrightarrow> cond q \<Longrightarrow> \<exists>p. First_pin cond err db = Inr p"
  using First_pin_Inl [of cond err db] by (cases "First_pin cond err db") auto

lemma Walk_total_size:
  "Walk dserv todo cset ws = Inr ws' \<Longrightarrow> snd ws = sum_list (map obj_Size (fst ws)) \<Longrightarrow>
     snd ws' = sum_list (map obj_Size (fst ws'))"
proof (induction dserv todo cset ws rule: Walk.induct)
  case (1 dserv cset ws)
  then show ?case by simp
next
  case (2 dserv c todo cset ws)
  show ?case
  proof (cases "c \<in> set cset")
    case True
    with 2 show ?thesis by simp
  next
    case False
    with "2.prems" obtain r where g: "getLinks dserv c ws = Inr r"
      and w: "Walk dserv (fst r @ todo) (c # cset) (snd r) = Inr ws'"
      by (auto split: sum.splits)
    from g "2.prems"(2) have "snd (snd r) = sum_list (map obj_Size (fst (snd r)))"
      by (auto simp: getLinks_def Let_def split: option.splits if_splits)
    with "2.IH"(2) [OF False g w] show ?thesis .
  qed
qed

lemma Walk_error: "Walk dserv todo cset ws = Inl e \<Longrightarrow> e = NodeGetError"
proof (induction dserv todo cset ws rule: Walk.induct)
  case (1 dserv cset ws)
  then show ?case by simp
next
  case (2 dserv c todo cset ws)
  show ?case
  proof (cases "c \<in> set cset")
    case True
    with 2 show ?thesis by simp
  next
    case False
    show ?thesis
    proof (cases "getLinks dserv c ws")
      case (Inl e')
      with False "2.prems" show ?thesis
        by (auto simp: getLinks_def Let_def split: option.splits if_splits)
    next
      case (Inr r)
      with False "2.prems" "2.IH"(2) show ?thesis by simp
    qed
  qed
qed

lemma sum_list_obj_Size_strip:
  "map (\<lambda>ob. ob\<lparr>obj_ID := 0\<rparr>) xs = map (\<lambda>ob. ob\<lparr>obj_ID := 0\<rparr>) ys \<Longrightarrow>
     sum_list (map obj_Size xs) = sum_list (map obj_Size ys)"
proof -
  assume "map (\<lambda>ob. ob\<lparr>obj_ID := 0\<rparr>) xs = map (\<lambda>ob. ob\<lparr>obj_ID := 0\<rparr>) ys"
  then have "map obj_Size (map (\<lambda>ob. ob\<lparr>obj_ID := 0\<rparr>) xs) = map obj_Size (map (\<lambda>ob. ob\<lparr>obj_ID := 0\<rparr>) ys)"
    by simp
  then have "map obj_Size xs = map obj_Size ys" by (simp add: comp_def)
  then show ?thesis by simp
qed

lemma refs_strip:
  "map (\<lambda>r. r\<lparr>ref_ID := 0\<rparr>) rs = map (\<lambda>r. r\<lparr>ref_ID := 0\<rparr>) (map (\<lambda>ob. \<lparr>ref_ID = 0, ref_Pin = i, ref_Object = obj_ID ob\<rparr>) objs) \<Longrightarrow>
     map (\<lambda>r. (ref_Pin r, ref_Object r)) rs = map (\<lambda>ob. (i, obj_ID ob)) objs"
proof -
  assume "map (\<lambda>r. r\<lparr>ref_ID := 0\<rparr>) rs = map (\<lambda>r. r\<lparr>ref_ID := 0\<rparr>) (map (\<lambda>ob. \<lparr>ref_ID = 0, ref_Pin = i, ref_Object = obj_ID ob\<rparr>) objs)"
  then have "map (\<lambda>r. (ref_Pin r, ref_Object r)) (map (\<lambda>r. r\<lparr>ref_ID := 0\<rparr>) rs) =
     map (\<lambda>r. (ref_Pin r, ref_Object r)) (map (\<lambda>r. r\<lparr>ref_ID := 0\<rparr>) (map (\<lambda>ob. \<lparr>ref_ID = 0, ref_Pin = i, ref_Object = obj_ID ob\<rparr>) objs))"
    by simp
  then show ?thesis by (simp add: comp_def)
qed

text \<open>Concrete runs of walk-and-record on the example database.\<close>

lemma example_walk:
  "Walk example_dserv [example_cid 0x70 ''root''] [] ([], 0) =
     Inr ([\<lparr>obj_ID = 0, obj_Cid = example_cid 0x70 ''root'', obj_Size = 2\<rparr>,
           \<lparr>obj_ID = 0, obj_Cid = example_cid 0x55 ''a'', obj_Size = 3\<rparr>,
           \<lparr>obj_ID = 0, obj_Cid = example_cid 0x55 ''b'', obj_Size = 1\<rparr>], 6)"
  by (simp add: example_dserv_def example_cid_def getLinks_def Raw_def)

lemma batches_short: "0 < n \<Longrightarrow> length xs \<le> n \<Longrightarrow> xs \<noteq> [] \<Longrightarrow> batches n xs = [xs]"
  by (subst batches.simps, subst batches.simps) simp

lemma example_run:
  "addDatabaseTrackingToContent no_track_errors example_dserv 7 (example_cid 0x70 ''root'') example_db =
     (Inr (7, 6, example_objects), example_db_recorded)"
  by (simp add: addDatabaseTrackingToContent_def example_walk First_pin_def example_db_def
      example_pin_def no_track_errors_def CreateInBatches_def batches_short insert_objects_def
      insert_obj_refs_def fresh_id_def UpdateColumns_active_def Let_def example_objects_def
      example_refs_def example_db_recorded_def del: Walk.simps)

lemma example_run_refs_fail:
  "addDatabaseTrackingToContent (no_track_errors\<lparr>te_Refs_fail := Some 0\<rparr>) example_dserv 7
       (example_cid 0x70 ''root'') example_db =
     (Inl (Wrapped ''failed to create refs'' DBError),
      example_db_recorded\<lparr>obj_refs := [],
         db_log := [InsertObjects example_objects, UpdatePinActive 7 6]\<rparr>)"
  by (simp add: addDatabaseTrackingToContent_def example_walk First_pin_def example_db_def
      example_pin_def no_track_errors_def CreateInBatches_def batches_short insert_objects_def
      insert_obj_refs_def fresh_id_def UpdateColumns_active_def Let_def example_objects_def
      example_refs_def example_db_recorded_def del: Walk.simps)

lemma example_run_objects_fail:
  "addDatabaseTrackingToContent (no_track_errors\<lparr>te_Objects_fail := Some 0\<rparr>) example_dserv 7
       (example_cid 0x70 ''root'') example_db =
     (Inl (Wrapped ''failed to create objects in db'' DBError), example_db)"
  by (simp add: addDatabaseTrackingToContent_def example_walk First_pin_def example_db_def
      example_pin_def no_track_errors_def CreateInBatches_def batches_short
      Let_def del: Walk.simps)

lemma track_success_effect:
  assumes run: "addDatabaseTrackingToContent env dserv contid root db = (Inr r, db')"
  shows "\<exists>dbpin objects0 totalSize objs refs.
        First_pin (\<lambda>p. pin_Content p = contid) (te_First_err env) db = Inr dbpin \<and>
        Walk dserv [root] [] ([], 0) = Inr (objects0, totalSize) \<and>
        map (\<lambda>ob. ob\<lparr>obj_ID := 0\<rparr>) objs = map (\<lambda>ob. ob\<lparr>obj_ID := 0\<rparr>) objects0 \<and>
        totalSize = sum_list (map obj_Size objs) \<and>
        map (\<lambda>r. (ref_Pin r, ref_Object r)) refs = map (\<lambda>ob. (pin_ID dbpin, obj_ID ob)) objs \<and>
        objects db' = objects db @ objs \<and>
        obj_refs db' = obj_refs db @ refs \<and>
        pins db' = map (mark_active contid totalSize) (pins db) \<and>
        db_log db' = db_log db @ map InsertObjects (batches 300 objs) @
                       [UpdatePinActive contid totalSize] @ map InsertObjRefs (batches 500 refs) \<and>
        r = (contid, totalSize, objs)"
  using run
proof (cases rule: track_cases)
    case (success dbpin objects0 totalSize objs db1 db2 rs)
    have n300: "0 < (300::nat)" and n500: "0 < (500::nat)" by simp_all
    note o12 = CreateInBatches_objects(1,2) [OF success(3) n300]
    note o3 = CreateInBatches_objects(3) [OF success(3) n300 refl]
    note u = UpdateColumns_active_effect [OF success(4)]
    note f12 = CreateInBatches_obj_refs(1,2) [OF success(5) n500]
    note f3 = CreateInBatches_obj_refs(3) [OF success(5) n500 refl]
    have strip: "map (\<lambda>ob. ob\<lparr>obj_ID := 0\<rparr>) objs = map (\<lambda>ob. ob\<lparr>obj_ID := 0\<rparr>) objects0"
      using o3 by simp
    have "totalSize = sum_list (map obj_Size objects0)"
      using Walk_total_size [OF success(2)] by simp
    then have total: "totalSize = sum_list (map obj_Size objs)"
      using sum_list_obj_Size_strip [OF strip] by simp
    have refs: "map (\<lambda>r. (ref_Pin r, ref_Object r)) rs = map (\<lambda>ob. (pin_ID dbpin, obj_ID ob)) objs"
      using f3 by (intro refs_strip) simp
    have objs: "objects db' = objects db @ objs" using o3 u f12 by simp
    have orefs: "obj_refs db' = obj_refs db @ rs" using o12 u f3 by simp
    have pins: "pins db' = map (mark_active contid totalSize) (pins db)" using o12 u f12 by simp
    have log: "db_log db' = db_log db @ map InsertObjects (batches 300 objs) @
                       [UpdatePinActive contid totalSize] @ map InsertObjRefs (batches 500 rs)"
      using o3 u f3 by simp
    have r: "r = (contid, totalSize, objs)"
      using success(6) First_pin_Inr [OF success(1)] by simp
    from success(1,2) strip total refs objs orefs pins log r show ?thesis by blast
qed simp_all




section \<open>Failure of processing and the failed status\<close>

lemma create_batches_error:
  "create_batches ins fail i bs db = (Inl e, db') \<Longrightarrow> e = DBError \<and> fail \<noteq> None"
proof (induction bs arbitrary: i db)
  case Nil
  then show ?case by simp
next
  case (Cons b bs)
  show ?case
  proof (cases "fail = Some i")
    case True
    with Cons.prems show ?thesis by simp
  next
    case False
    obtain b' db1 where insb: "ins b db = (b', db1)" by (cases "ins b db")
    with False Cons.prems have "create_batches ins fail (Suc i) bs db1 = (Inl e, db')"
      by (auto split: prod.splits sum.splits)
    then show ?thesis by (rule Cons.IH)
  qed
qed

lemma CreateInBatches_error:
  "CreateInBatches ins fail rows n db = (Inl e, db') \<Longrightarrow> e = DBError \<and> fail \<noteq> None"
  unfolding CreateInBatches_def by (rule create_batches_error)

lemma mark_active_Failed: "map pin_Failed (map (mark_active c t) ps) = map pin_Failed ps"
  by (induction ps) (auto simp: mark_active_def)

lemma track_failure_pins:
  assumes run: "addDatabaseTrackingToContent env dserv contid root db = (Inl e, db')"
  shows "map pin_Failed (pins db') = map pin_Failed (pins db)"
    and "pins db' = pins db \<or>
         (\<exists>t. e = Wrapped ''failed to create refs'' DBError \<and>
              pins db' = map (mark_active contid t) (pins db))"
    and "te_Refs_fail env = None \<Longrightarrow> pins db' = pins db"
proof -
  have n300: "0 < (300::nat)" and n500: "0 < (500::nat)" by simp_all
  have main: "(pins db' = pins db \<or>
         (\<exists>t. e = Wrapped ''failed to create refs'' DBError \<and>
              pins db' = map (mark_active contid t) (pins db))) \<and>
         (te_Refs_fail env = None \<longrightarrow> pins db' = pins db)"
    using run
  proof (cases rule: track_cases)
    case (first e)
    then show ?thesis by simp
  next
    case (walk dbpin e)
    then show ?thesis by simp
  next
    case (objs dbpin objects0 totalSize e)
    from CreateInBatches_objects(1) [OF objs(3) n300] show ?thesis by simp
  next
    case (update dbpin objects0 totalSize objs db1 e)
    from CreateInBatches_objects(1) [OF update(3) n300]
      UpdateColumns_active_effect [OF update(4)]
    show ?thesis by auto
  next
    case (refs dbpin objects0 totalSize objs db1 db2 e')
    from CreateInBatches_error [OF refs(5)] have e': "e' = DBError" "te_Refs_fail env \<noteq> None"
      by simp_all
    from CreateInBatches_objects(1) [OF refs(3) n300]
      UpdateColumns_active_effect [OF refs(4)]
      CreateInBatches_obj_refs(1) [OF refs(5) n500]
    have "pins db' = map (mark_active contid totalSize) (pins db)" by simp
    with e' refs(6) show ?thesis by auto
  next
    case (success dbpin objects0 totalSize objs db1 db2 rs)
    then show ?thesis by simp
  qed
  from main show "pins db' = pins db \<or>
         (\<exists>t. e = Wrapped ''failed to create refs'' DBError \<and>
              pins db' = map (mark_active contid t) (pins db))" by blast
  from main show "te_Refs_fail env = None \<Longrightarrow> pins db' = pins db" by blast
  from main have "pins db' = pins db \<or> (\<exists>t. pins db' = map (mark_active contid t) (pins db))"
    by blast
  then show "map pin_Failed (pins db') = map pin_Failed (pins db)"
    by (elim disjE exE) (simp_all only: mark_active_Failed)
qed

lemma track_pins:
  assumes run: "addDatabaseTrackingToContent env dserv contid root db = (res, db')"
  shows "pins db' = pins db \<or> (\<exists>t. pins db' = map (mark_active contid t) (pins db))"
proof (cases res)
  case (Inl e)
  with track_failure_pins(2) [of env dserv contid root db e db'] run show ?thesis by blast
next
  case (Inr r)
  have n300: "0 < (300::nat)" and n500: "0 < (500::nat)" by simp_all
  from run Inr show ?thesis
  proof (cases rule: track_cases)
    case (success dbpin objects0 totalSize objs db1 db2 rs)
    from CreateInBatches_objects(1) [OF success(3) n300]
      UpdateColumns_active_effect [OF success(4)]
      CreateInBatches_obj_refs(1) [OF success(5) n500]
    have "pins db' = map (mark_active contid totalSize) (pins db)" by simp
    then show ?thesis by blast
  qed simp_all
qed

lemma doPinning_Inl:
  "doPinning env dsess op db = (Inl e, db') \<Longrightarrow>
     addDatabaseTrackingToContent env dsess (op_ContId op) (op_Obj op) db = (Inl e, db')"
  by (auto simp: doPinning_def split: prod.splits sum.splits)

lemma onPinStatusUpdate_failed:
  "pins (fst (onPinStatusUpdate False cont ''failed'' db)) = map (mark_failed cont) (pins db)"
  by (simp add: onPinStatusUpdate_def UpdateColumns_failed_def mark_failed_def Let_def)

lemma create_batches_succeeds:
  "\<exists>rows db'. create_batches ins None i bs db = (Inr rows, db')"
proof -
  obtain res db' where run: "create_batches ins None i bs db = (res, db')"
    by (cases "create_batches ins None i bs db")
  show ?thesis
  proof (cases res)
    case (Inl e)
    with run create_batches_error [of ins None i bs db e db'] show ?thesis by simp
  next
    case (Inr rows)
    with run show ?thesis by blast
  qed
qed

lemma Walk_objects_grow:
  "Walk dserv todo cset ws = Inr ws' \<Longrightarrow> length (fst ws) \<le> length (fst ws')"
proof (induction dserv todo cset ws rule: Walk.induct)
  case (1 dserv cset ws)
  then show ?case by simp
next
  case (2 dserv c todo cset ws)
  show ?case
  proof (cases "c \<in> set cset")
    case True
    with 2 show ?thesis by simp
  next
    case False
    with "2.prems" obtain r where g: "getLinks dserv c ws = Inr r"
      and w: "Walk dserv (fst r @ todo) (c # cset) (snd r) = Inr ws'"
      by (auto split: sum.splits)
    from g have "length (fst (snd r)) = Suc (length (fst ws))"
      by (auto simp: getLinks_def Let_def split: option.splits if_splits)
    with "2.IH"(2) [OF False g w] show ?thesis by simp
  qed
qed

lemma Walk_root_recorded:
  assumes "Walk dserv [root] [] ([], 0) = Inr (objects0, totalSize)"
  shows "objects0 \<noteq> []"
proof -
  from assms obtain r where g: "getLinks dserv root ([], 0) = Inr r"
    and w: "Walk dserv (fst r @ []) [root] (snd r) = Inr (objects0, totalSize)"
    by (auto split: sum.splits)
  from g have "length (fst (snd r)) = Suc 0"
    by (auto simp: getLinks_def Let_def split: option.splits if_splits)
  with Walk_objects_grow [OF w] show ?thesis by auto
qed

lemma CreateInBatches_first_batch_fails:
  "rows \<noteq> [] \<Longrightarrow> 0 < n \<Longrightarrow> CreateInBatches ins (Some 0) rows n db = (Inl DBError, db)"
  by (simp add: CreateInBatches_def batches.simps [of n rows])

lemma track_succeeds:
  assumes env: "\<not> te_First_err env" "te_Objects_fail env = None" "\<not> te_Update_err env"
      "te_Refs_fail env = None"
    and q: "q \<in> set (pins db)" "pin_Content q = contid"
    and walk: "Walk dserv [root] [] ([], 0) = Inr (objects0, totalSize)"
  shows "\<exists>objs db'. addDatabaseTrackingToContent env dserv contid root db
            = (Inr (contid, totalSize, objs), db')"
proof -
  obtain res db' where run: "addDatabaseTrackingToContent env dserv contid root db = (res, db')"
    by (cases "addDatabaseTrackingToContent env dserv contid root db")
  from run show ?thesis
  proof (cases rule: track_cases)
    case (first e)
    with First_pin_Inl [OF first(1)] env(1) q show ?thesis by auto
  next
    case (walk dbpin e)
    with assms(7) show ?thesis by simp
  next
    case (objs dbpin objects0' totalSize' e)
    with CreateInBatches_error [OF objs(3)] env(2) show ?thesis by simp
  next
    case (update dbpin objects0' totalSize' objs db1 e)
    with env(3) show ?thesis by (simp add: UpdateColumns_active_def)
  next
    case (refs dbpin objects0' totalSize' objs db1 db2 e)
    with CreateInBatches_error [OF refs(5)] env(4) show ?thesis by simp
  next
    case (success dbpin objects0' totalSize' objs db1 db2 rs)
    from success(2) assms(7) have "totalSize' = totalSize" by simp
    moreover from First_pin_Inr [OF success(1)] have "pin_Content dbpin = contid" by simp
    ultimately show ?thesis using run success(6) by simp
  qed
qed

lemma track_refs_failure:
  assumes run: "addDatabaseTrackingToContent env dserv contid root db
                  = (Inl (Wrapped ''failed to create refs'' e), db')"
  shows "\<exists>dbpin objects0 totalSize objs.
           First_pin (\<lambda>p. pin_Content p = contid) (te_First_err env) db = Inr dbpin \<and>
           Walk dserv [root] [] ([], 0) = Inr (objects0, totalSize) \<and>
           pins db' = map (mark_active contid totalSize) (pins db) \<and>
           objects db' = objects db @ objs \<and>
           map (\<lambda>ob. ob\<lparr>obj_ID := 0\<rparr>) objs = map (\<lambda>ob. ob\<lparr>obj_ID := 0\<rparr>) objects0"
  using run
proof (cases rule: track_cases)
  case (first e')
  with First_pin_Inl [OF first(1)] show ?thesis by auto
next
  case (walk dbpin e')
  with Walk_error [OF walk(2)] show ?thesis by simp
next
  case (refs dbpin objects0 totalSize objs db1 db2 e')
  have n300: "0 < (300::nat)" and n500: "0 < (500::nat)" by simp_all
  note o12 = CreateInBatches_objects(1,2) [OF refs(3) n300]
  note o3 = CreateInBatches_objects(3) [OF refs(3) n300 refl]
  note u = UpdateColumns_active_effect [OF refs(4)]
  note f12 = CreateInBatches_obj_refs(1,2) [OF refs(5) n500]
  have "pins db' = map (mark_active contid totalSize) (pins db)" using o12 u f12 by simp
  moreover have "objects db' = objects db @ objs" using o3 u f12 by simp
  moreover have "map (\<lambda>ob. ob\<lparr>obj_ID := 0\<rparr>) objs = map (\<lambda>ob. ob\<lparr>obj_ID := 0\<rparr>) objects0"
    using o3 by simp
  ultimately show ?thesis using refs(1,2) by blast
qed simp_all

lemma track_first_ref_batch_fails:
  assumes env: "\<not> te_First_err env" "te_Objects_fail env = None" "\<not> te_Update_err env"
      "te_Refs_fail env = Some 0"
    and q: "q \<in> set (pins db)" "pin_Content q = contid"
    and walk: "Walk dserv [root] [] ([], 0) = Inr (objects0, totalSize)"
  shows "fst (addDatabaseTrackingToContent env dserv contid root db)
           = Inl (Wrapped ''failed to create refs'' DBError)"
proof -
  obtain res db' where run: "addDatabaseTrackingToContent env dserv contid root db = (res, db')"
    by (cases "addDatabaseTrackingToContent env dserv contid root db")
  have n300: "0 < (300::nat)" and n500: "0 < (500::nat)" by simp_all
  from run show ?thesis
  proof (cases rule: track_cases)
    case (first e)
    with First_pin_Inl [OF first(1)] env(1) q show ?thesis by auto
  next
    case (walk dbpin e)
    with assms(7) show ?thesis by simp
  next
    case (objs dbpin objects0' totalSize' e)
    with CreateInBatches_error [OF objs(3)] env(2) show ?thesis by simp
  next
    case (update dbpin objects0' totalSize' objs db1 e)
    with env(3) show ?thesis by (simp add: UpdateColumns_active_def)
  next
    case (refs dbpin objects0' totalSize' objs db1 db2 e)
    with CreateInBatches_error [OF refs(5)] run show ?thesis by simp
  next
    case (success dbpin objects0' totalSize' objs db1 db2 rs)
    from success(2) assms(7) have "objects0' = objects0" by simp
    with Walk_root_recorded [OF assms(7)] have "objects0' \<noteq> []" by simp
    moreover from CreateInBatches_objects(3) [OF success(3) n300 refl]
    have "length objs = length objects0'" by (metis length_map)
    ultimately have "map (\<lambda>ob. \<lparr>ref_ID = 0, ref_Pin = pin_ID dbpin, ref_Object = obj_ID ob\<rparr>) objs \<noteq> []"
      by auto
    from CreateInBatches_first_batch_fails [OF this n500, of insert_obj_refs db2] success(5) env(4)
    show ?thesis by simp
  qed
qed

lemma example_doPinning_refs_fail:
  "doPinning (no_track_errors\<lparr>te_Refs_fail := Some 0\<rparr>) example_dserv example_op example_db =
     (Inl (Wrapped ''failed to create refs'' DBError),
      example_db_recorded\<lparr>obj_refs := [],
         db_log := [InsertObjects example_objects, UpdatePinActive 7 6]\<rparr>)"
  by (simp add: doPinning_def example_op_def example_run_refs_fail)

lemma example_doPinning_objects_fail:
  "doPinning (no_track_errors\<lparr>te_Objects_fail := Some 0\<rparr>) example_dserv example_op example_db =
     (Inl (Wrapped ''failed to create objects in db'' DBError), example_db)"
  by (simp add: doPinning_def example_op_def example_run_objects_fail)

lemma doPinning_fst_snd:
  "fst (doPinning env dsess op db)
     = (case fst (addDatabaseTrackingToContent env dsess (op_ContId op) (op_Obj op) db) of
          Inl e \<Rightarrow> Inl e | Inr r \<Rightarrow> Inr ())"
  "snd (doPinning env dsess op db)
     = snd (addDatabaseTrackingToContent env dsess (op_ContId op) (op_Obj op) db)"
  by (auto simp: doPinning_def split: prod.splits sum.splits)

lemma mark_active_eq:
  "mark_active c t = (\<lambda>p. if pin_Content p = c
                         then p\<lparr>pin_Active := True, pin_Size := t, pin_Pinning := False\<rparr>
                         else p)"
  by (rule ext) (simp add: mark_active_def)

text \<open>
  Claim C6 fails on the code when the ObjRef insert fails. Whenever \<open>doPinning\<close> returns
  the "failed to create refs" error, the Pin rows of that content id have already been
  rewritten to \<open>active = true\<close>, \<open>pinning = false\<close>: the error is returned and the Pin is
  in a terminal state. This happens for every Pin that is found and walked when the
  first ObjRef batch fails. The rest of the claim holds: a failure that comes no later
  than the Pin update leaves all Pin rows as they were, \<open>doPinning\<close> never touches a
  \<open>failed\<close> flag, and the status callback, given "failed", sets \<open>pinning = false\<close>,
  \<open>active = false\<close>, \<open>failed = true\<close> on the rows of that content id.
\<close>

theorem C6_refs_failure_leaves_pin_active:
  "(doPinning env dsess op db = (Inl (Wrapped ''failed to create refs'' e), db') \<longrightarrow>
      (\<exists>dbpin objects0 totalSize.
         First_pin (\<lambda>p. pin_Content p = op_ContId op) (te_First_err env) db = Inr dbpin \<and>
         Walk dsess [op_Obj op] [] ([], 0) = Inr (objects0, totalSize) \<and>
         pins db' = map (\<lambda>p. if pin_Content p = op_ContId op
                              then p\<lparr>pin_Active := True, pin_Size := totalSize, pin_Pinning := False\<rparr>
                              else p) (pins db)))
   \<and> (\<not> te_First_err env1 \<and> te_Objects_fail env1 = None \<and> \<not> te_Update_err env1 \<and>
       te_Refs_fail env1 = Some 0 \<and> q \<in> set (pins db1) \<and> pin_Content q = op_ContId op1 \<and>
       Walk dsess1 [op_Obj op1] [] ([], 0) = Inr (objects1, totalSize1) \<longrightarrow>
        fst (doPinning env1 dsess1 op1 db1) = Inl (Wrapped ''failed to create refs'' DBError) \<and>
        pins (snd (doPinning env1 dsess1 op1 db1))
          = map (\<lambda>p. if pin_Content p = op_ContId op1
                      then p\<lparr>pin_Active := True, pin_Size := totalSize1, pin_Pinning := False\<rparr>
                      else p) (pins db1))
   \<and> (te_Refs_fail env2 = None \<and> doPinning env2 dsess2 op2 db2 = (Inl e2, db2') \<longrightarrow>
        pins db2' = pins db2)
   \<and> map pin_Failed (pins (snd (doPinning env3 dsess3 op3 db3))) = map pin_Failed (pins db3)
   \<and> pins (fst (onPinStatusUpdate False cont ''failed'' db4))
       = map (\<lambda>p. if pin_Content p = cont
                   then p\<lparr>pin_Pinning := False, pin_Active := False, pin_Failed := True\<rparr>
                   else p) (pins db4)"
proof (intro conjI impI)
  assume a: "doPinning env dsess op db = (Inl (Wrapped ''failed to create refs'' e), db')"
  from track_refs_failure [OF doPinning_Inl [OF a]]
  show "\<exists>dbpin objects0 totalSize.
         First_pin (\<lambda>p. pin_Content p = op_ContId op) (te_First_err env) db = Inr dbpin \<and>
         Walk dsess [op_Obj op] [] ([], 0) = Inr (objects0, totalSize) \<and>
         pins db' = map (\<lambda>p. if pin_Content p = op_ContId op
                              then p\<lparr>pin_Active := True, pin_Size := totalSize, pin_Pinning := False\<rparr>
                              else p) (pins db)"
    unfolding mark_active_eq by blast
next
  assume h: "\<not> te_First_err env1 \<and> te_Objects_fail env1 = None \<and> \<not> te_Update_err env1 \<and>
       te_Refs_fail env1 = Some 0 \<and> q \<in> set (pins db1) \<and> pin_Content q = op_ContId op1 \<and>
       Walk dsess1 [op_Obj op1] [] ([], 0) = Inr (objects1, totalSize1)"
  then have f: "fst (addDatabaseTrackingToContent env1 dsess1 (op_ContId op1) (op_Obj op1) db1)
           = Inl (Wrapped ''failed to create refs'' DBError)"
    using track_first_ref_batch_fails [of env1 q db1 "op_ContId op1" dsess1 "op_Obj op1" objects1 totalSize1]
    by simp
  then show g1: "fst (doPinning env1 dsess1 op1 db1) = Inl (Wrapped ''failed to create refs'' DBError)"
    by (simp add: doPinning_fst_snd)
  from f have "addDatabaseTrackingToContent env1 dsess1 (op_ContId op1) (op_Obj op1) db1
      = (Inl (Wrapped ''failed to create refs'' DBError),
         snd (addDatabaseTrackingToContent env1 dsess1 (op_ContId op1) (op_Obj op1) db1))"
    by (metis prod.collapse)
  from track_refs_failure [OF this] h
  show "pins (snd (doPinning env1 dsess1 op1 db1))
          = map (\<lambda>p. if pin_Content p = op_ContId op1
                      then p\<lparr>pin_Active := True, pin_Size := totalSize1, pin_Pinning := False\<rparr>
                      else p) (pins db1)"
    unfolding mark_active_eq by (auto simp: doPinning_fst_snd)
next
  assume a: "te_Refs_fail env2 = None \<and> doPinning env2 dsess2 op2 db2 = (Inl e2, db2')"
  then have r: "te_Refs_fail env2 = None" and d: "doPinning env2 dsess2 op2 db2 = (Inl e2, db2')"
    by simp_all
  from track_failure_pins(3) [OF doPinning_Inl [OF d] r] show "pins db2' = pins db2" .
next
  obtain res db' where run:
    "addDatabaseTrackingToContent env3 dsess3 (op_ContId op3) (op_Obj op3) db3 = (res, db')"
    by (cases "addDatabaseTrackingToContent env3 dsess3 (op_ContId op3) (op_Obj op3) db3")
  from track_pins [OF run] have "map pin_Failed (pins db') = map pin_Failed (pins db3)"
    by (elim disjE exE) (simp_all only: mark_active_Failed)
  with run show "map pin_Failed (pins (snd (doPinning env3 dsess3 op3 db3))) = map pin_Failed (pins db3)"
    by (simp add: doPinning_fst_snd)
next
  show "pins (fst (onPinStatusUpdate False cont ''failed'' db4))
       = map (\<lambda>p. if pin_Content p = cont
                   then p\<lparr>pin_Pinning := False, pin_Active := False, pin_Failed := True\<rparr>
                   else p) (pins db4)"
    by (simp add: onPinStatusUpdate_def UpdateColumns_failed_def Let_def)
qed

theorem C6_refs_failure_leaves_pin_active_witness:
  "doPinning (no_track_errors\<lparr>te_Refs_fail := Some 0\<rparr>) example_dserv example_op example_db
     = (Inl (Wrapped ''failed to create refs'' DBError),
        example_db_recorded\<lparr>obj_refs := [],
           db_log := [InsertObjects example_objects, UpdatePinActive 7 6]\<rparr>)
   \<and> \<not> te_First_err (no_track_errors\<lparr>te_Refs_fail := Some 0\<rparr>)
   \<and> te_Objects_fail (no_track_errors\<lparr>te_Refs_fail := Some 0\<rparr>) = None
   \<and> \<not> te_Update_err (no_track_errors\<lparr>te_Refs_fail := Some 0\<rparr>)
   \<and> te_Refs_fail (no_track_errors\<lparr>te_Refs_fail := Some 0\<rparr>) = Some 0
   \<and> example_pin 1 7 \<in> set (pins example_db)
   \<and> pin_Content (example_pin 1 7) = op_ContId example_op
   \<and> Walk example_dserv [op_Obj example_op] [] ([], 0) = Inr (example_walked, 6)
   \<and> map (\<lambda>p. (pin_Pinning p, pin_Active p, pin_Failed p)) (pins example_db)
       = [(True, False, False), (True, False, False)]
   \<and> map (\<lambda>p. (pin_Pinning p, pin_Active p, pin_Failed p))
       (pins (snd (doPinning (no_track_errors\<lparr>te_Refs_fail := Some 0\<rparr>) example_dserv example_op
                     example_db)))
       = [(False, True, False), (True, False, False)]
   \<and> te_Refs_fail (no_track_errors\<lparr>te_Objects_fail := Some 0\<rparr>) = None
   \<and> doPinning (no_track_errors\<lparr>te_Objects_fail := Some 0\<rparr>) example_dserv example_op example_db
       = (Inl (Wrapped ''failed to create objects in db'' DBError), example_db)
   \<and> map (\<lambda>p. (pin_Pinning p, pin_Active p, pin_Failed p))
       (pins (fst (onPinStatusUpdate False 7 ''failed'' example_db)))
     = [(False, False, True), (True, False, False)]"
proof -
  have walk: "Walk example_dserv [op_Obj example_op] [] ([], 0) = Inr (example_walked, 6)"
    using example_walk by (simp add: example_op_def example_walked_def del: Walk.simps)
  have env: "\<not> te_First_err (no_track_errors\<lparr>te_Refs_fail := Some 0\<rparr>)"
    "te_Objects_fail (no_track_errors\<lparr>te_Refs_fail := Some 0\<rparr>) = None"
    "\<not> te_Update_err (no_track_errors\<lparr>te_Refs_fail := Some 0\<rparr>)"
    "te_Refs_fail (no_track_errors\<lparr>te_Refs_fail := Some 0\<rparr>) = Some 0"
    "te_Refs_fail (no_track_errors\<lparr>te_Objects_fail := Some 0\<rparr>) = None"
    by (simp_all add: no_track_errors_def)
  have q: "example_pin 1 7 \<in> set (pins example_db)"
    "pin_Content (example_pin 1 7) = op_ContId example_op"
    by (simp_all add: example_db_def example_pin_def example_op_def)
  have flags: "map (\<lambda>p. (pin_Pinning p, pin_Active p, pin_Failed p)) (pins example_db)
       = [(True, False, False), (True, False, False)]"
    by (simp add: example_db_def example_pin_def)
  note inst = C6_refs_failure_leaves_pin_active
    [of "no_track_errors\<lparr>te_Refs_fail := Some 0\<rparr>" example_dserv example_op example_db DBError
        "example_db_recorded\<lparr>obj_refs := [],
           db_log := [InsertObjects example_objects, UpdatePinActive 7 6]\<rparr>"
        "no_track_errors\<lparr>te_Refs_fail := Some 0\<rparr>" "example_pin 1 7" example_db example_op
        example_dserv example_walked 6
        "no_track_errors\<lparr>te_Objects_fail := Some 0\<rparr>" example_dserv example_op example_db
        "Wrapped ''failed to create objects in db'' DBError" example_db
        "no_track_errors" example_dserv example_op example_db 7 example_db]
  from inst env q walk have after: "pins (snd (doPinning (no_track_errors\<lparr>te_Refs_fail := Some 0\<rparr>)
        example_dserv example_op example_db))
      = map (\<lambda>p. if pin_Content p = op_ContId example_op
                  then p\<lparr>pin_Active := True, pin_Size := 6, pin_Pinning := False\<rparr>
                  else p) (pins example_db)"
    by blast
  have after': "map (\<lambda>p. (pin_Pinning p, pin_Active p, pin_Failed p))
       (pins (snd (doPinning (no_track_errors\<lparr>te_Refs_fail := Some 0\<rparr>) example_dserv example_op
                     example_db)))
       = [(False, True, False), (True, False, False)]"
    unfolding after by (simp add: example_db_def example_pin_def example_op_def)
  from inst have cb: "map (\<lambda>p. (pin_Pinning p, pin_Active p, pin_Failed p))
       (pins (fst (onPinStatusUpdate False 7 ''failed'' example_db)))
     = [(False, False, True), (True, False, False)]"
    by (simp add: example_db_def example_pin_def)
  from example_doPinning_refs_fail env q walk flags after' example_doPinning_objects_fail cb
  show ?thesis by (intro conjI)
qed

section \<open>Unpin and restore-on-startup\<close>

lemma Unpin_cases:
  assumes run: "Unpin env contid db = (res, db')"
  obtains (first) e where "First_pin (\<lambda>p. pin_ID p = contid) (ue_First_err env) db = Inl e"
      "res = Inl e" "db' = db"
  | (delpin) pin where "First_pin (\<lambda>p. pin_ID p = contid) (ue_First_err env) db = Inr pin"
      "ue_DeletePin_err env" "res = Inl DBError" "db' = db"
  | (delrefs) pin where "First_pin (\<lambda>p. pin_ID p = contid) (ue_First_err env) db = Inr pin"
      "\<not> ue_DeletePin_err env" "ue_DeleteRefs_err env" "res = Inl DBError"
      "db' = db\<lparr>pins := filter (\<lambda>p. pin_ID p \<noteq> contid) (pins db),
                 db_log := db_log db @ [DeletePin contid]\<rparr>"
  | (reclaim) pin where "First_pin (\<lambda>p. pin_ID p = contid) (ue_First_err env) db = Inr pin"
      "\<not> ue_DeletePin_err env" "\<not> ue_DeleteRefs_err env" "res = Inl (Panic ''nyi'')"
      "db' = db\<lparr>pins := filter (\<lambda>p. pin_ID p \<noteq> contid) (pins db),
                 obj_refs := filter (\<lambda>r. ref_Pin r \<noteq> contid) (obj_refs db),
                 db_log := db_log db @ [DeletePin contid, DeleteObjRefs contid]\<rparr>"
proof (cases "First_pin (\<lambda>p. pin_ID p = contid) (ue_First_err env) db")
  case (Inl e)
  from run Inl have "res = Inl e" and "db' = db" by (simp_all add: Unpin_def)
  with Inl show ?thesis by (rule first)
next
  case (Inr pin)
  from First_pin_Inr [OF Inr] have id: "pin_ID pin = contid" by simp
  show ?thesis
  proof (cases "ue_DeletePin_err env")
    case True
    from run Inr id True have "res = Inl DBError" and "db' = db"
      by (simp_all add: Unpin_def Delete_pin_def)
    with Inr True show ?thesis by (rule delpin)
  next
    case False
    show ?thesis
    proof (cases "ue_DeleteRefs_err env")
      case True
      from run Inr id False True have "res = Inl DBError"
        and "db' = db\<lparr>pins := filter (\<lambda>p. pin_ID p \<noteq> contid) (pins db),
                 db_log := db_log db @ [DeletePin contid]\<rparr>"
        by (simp_all add: Unpin_def Delete_pin_def Delete_obj_refs_def)
      with Inr False True show ?thesis by (rule delrefs)
    next
      case r: False
      from run Inr id False r have "res = Inl (Panic ''nyi'')"
        and "db' = db\<lparr>pins := filter (\<lambda>p. pin_ID p \<noteq> contid) (pins db),
                 obj_refs := filter (\<lambda>r. ref_Pin r \<noteq> contid) (obj_refs db),
                 db_log := db_log db @ [DeletePin contid, DeleteObjRefs contid]\<rparr>"
        by (simp_all add: Unpin_def Delete_pin_def Delete_obj_refs_def clearUnreferencedObjects_def)
      with Inr False r show ?thesis by (rule reclaim)
    qed
  qed
qed

lemma Unpin_never_succeeds: "fst (Unpin env contid db) \<noteq> Inr ()"
proof -
  obtain res db' where run: "Unpin env contid db = (res, db')" by (cases "Unpin env contid db")
  from run show ?thesis by (cases rule: Unpin_cases) (simp_all add: run)
qed

lemma Unpin_objects: "objects (snd (Unpin env contid db)) = objects db"
proof -
  obtain res db' where run: "Unpin env contid db = (res, db')" by (cases "Unpin env contid db")
  from run show ?thesis by (cases rule: Unpin_cases) (simp_all add: run)
qed

lemma Unpin_keeps_other_ids:
  assumes "p \<in> set (pins db)" and "pin_ID p \<noteq> contid"
  shows "p \<in> set (pins (snd (Unpin env contid db)))"
proof -
  obtain res db' where run: "Unpin env contid db = (res, db')" by (cases "Unpin env contid db")
  from run show ?thesis using assms by (cases rule: Unpin_cases) (simp_all add: run)
qed

lemma Unpin_deletes_by_id:
  assumes "\<not> ue_First_err env" and "\<not> ue_DeletePin_err env"
    and "q \<in> set (pins db)" and "pin_ID q = contid"
  shows "pins (snd (Unpin env contid db)) = filter (\<lambda>p. pin_ID p \<noteq> contid) (pins db)"
proof -
  obtain res db' where run: "Unpin env contid db = (res, db')" by (cases "Unpin env contid db")
  from run show ?thesis
  proof (cases rule: Unpin_cases)
    case (first e)
    with First_pin_Inl [OF first(1)] assms show ?thesis by auto
  qed (simp_all add: assms run)
qed

lemma track_not_found:
  assumes "\<not> te_First_err env" and "\<forall>p \<in> set (pins db). pin_Content p \<noteq> contid"
  shows "addDatabaseTrackingToContent env dserv contid root db = (Inl ErrRecordNotFound, db)"
proof -
  from assms have "filter (\<lambda>p. pin_Content p = contid) (pins db) = []"
    by (simp add: filter_empty_conv)
  with assms(1) show ?thesis
    by (simp add: addDatabaseTrackingToContent_def First_pin_def)
qed

lemma track_located_by_content:
  assumes env: "\<not> te_First_err env" "te_Objects_fail env = None" "\<not> te_Update_err env"
      "te_Refs_fail env = None"
    and q: "q \<in> set (pins db)" "pin_Content q = contid"
    and walk: "Walk dserv [root] [] ([], 0) = Inr (objects0, totalSize)"
  shows "\<exists>objs. fst (addDatabaseTrackingToContent env dserv contid root db)
                  = Inr (contid, totalSize, objs)"
    and "pins (snd (addDatabaseTrackingToContent env dserv contid root db))
           = map (\<lambda>p. if pin_Content p = contid
                       then p\<lparr>pin_Active := True, pin_Size := totalSize, pin_Pinning := False\<rparr>
                       else p) (pins db)"
    and "\<exists>dbpin refs. dbpin \<in> set (pins db) \<and> pin_Content dbpin = contid \<and>
           obj_refs (snd (addDatabaseTrackingToContent env dserv contid root db))
             = obj_refs db @ refs \<and>
           map ref_Pin refs = replicate (length objects0) (pin_ID dbpin)"
proof -
  from track_succeeds [OF env q walk] obtain objs db' where
    run: "addDatabaseTrackingToContent env dserv contid root db = (Inr (contid, totalSize, objs), db')"
    by blast
  from track_success_effect [OF run] obtain dbpin objects0' refs where
    first: "First_pin (\<lambda>p. pin_Content p = contid) (te_First_err env) db = Inr dbpin"
    and walk': "Walk dserv [root] [] ([], 0) = Inr (objects0', totalSize)"
    and strip: "map (\<lambda>ob. ob\<lparr>obj_ID := 0\<rparr>) objs = map (\<lambda>ob. ob\<lparr>obj_ID := 0\<rparr>) objects0'"
    and refs: "map (\<lambda>r. (ref_Pin r, ref_Object r)) refs = map (\<lambda>ob. (pin_ID dbpin, obj_ID ob)) objs"
    and orefs: "obj_refs db' = obj_refs db @ refs"
    and pins: "pins db' = map (mark_active contid totalSize) (pins db)"
    by auto
  from run show "\<exists>objs. fst (addDatabaseTrackingToContent env dserv contid root db)
                  = Inr (contid, totalSize, objs)"
    by simp
  from run pins show "pins (snd (addDatabaseTrackingToContent env dserv contid root db))
           = map (\<lambda>p. if pin_Content p = contid
                       then p\<lparr>pin_Active := True, pin_Size := totalSize, pin_Pinning := False\<rparr>
                       else p) (pins db)"
    by (simp add: mark_active_eq)
  from walk walk' have "objects0' = objects0" by simp
  with strip have len: "length objs = length objects0" by (metis length_map)
  from refs have "map fst (map (\<lambda>r. (ref_Pin r, ref_Object r)) refs)
      = map fst (map (\<lambda>ob. (pin_ID dbpin, obj_ID ob)) objs)" by simp
  then have "map ref_Pin refs = replicate (length objs) (pin_ID dbpin)"
    by (simp add: comp_def map_replicate_const)
  with len have rp: "map ref_Pin refs = replicate (length objects0) (pin_ID dbpin)" by simp
  from First_pin_Inr [OF first] have "dbpin \<in> set (pins db)" and "pin_Content dbpin = contid"
    by simp_all
  with run orefs rp
  show "\<exists>dbpin refs. dbpin \<in> set (pins db) \<and> pin_Content dbpin = contid \<and>
           obj_refs (snd (addDatabaseTrackingToContent env dserv contid root db))
             = obj_refs db @ refs \<and>
           map ref_Pin refs = replicate (length objects0) (pin_ID dbpin)"
    by auto
qed

text \<open>
  Claim C10. \<open>Unpin\<close> selects the Pin row by primary key: with the lookup and the delete
  succeeding and a row of key \<open>contid\<close> present, exactly the rows of that key are deleted.
  Walk-and-record, processing (\<open>doPinning\<close>) and the status update find the Pin by its
  \<open>content\<close> column. When a row has the content id asked for, whatever its primary key,
  and the walk and the database statements succeed, walk-and-record and \<open>doPinning\<close>
  succeed, mark exactly the rows of that content id active, and link the new ObjRefs to
  the primary key of a row of that content id; when no row has that content id,
  walk-and-record reports "record not found", whatever the primary keys are; and the
  status update rewrites exactly the rows of that content id. Hence a Pin whose primary
  key differs from its content id is still in the table after \<open>Unpin\<close> has been applied
  to its content id.
\<close>

theorem C10_unpin_selects_by_primary_key:
  "(p \<in> set (pins db) \<and> pin_ID p \<noteq> pin_Content p \<longrightarrow>
      p \<in> set (pins (snd (Unpin env (pin_Content p) db))))
   \<and> (\<not> ue_First_err env1 \<and> \<not> ue_DeletePin_err env1 \<and> q \<in> set (pins db1) \<and> pin_ID q = contid1 \<longrightarrow>
      pins (snd (Unpin env1 contid1 db1)) = filter (\<lambda>p. pin_ID p \<noteq> contid1) (pins db1))
   \<and> (\<not> te_First_err env2 \<and> (\<forall>p \<in> set (pins db2). pin_Content p \<noteq> contid2) \<longrightarrow>
      addDatabaseTrackingToContent env2 dserv2 contid2 root2 db2 = (Inl ErrRecordNotFound, db2))
   \<and> (pins (snd (addDatabaseTrackingToContent env3 dserv3 contid3 root3 db3)) = pins db3 \<or>
      (\<exists>t. pins (snd (addDatabaseTrackingToContent env3 dserv3 contid3 root3 db3))
             = map (\<lambda>p. if pin_Content p = contid3
                         then p\<lparr>pin_Active := True, pin_Size := t, pin_Pinning := False\<rparr>
                         else p) (pins db3)))
   \<and> pins (fst (onPinStatusUpdate False cont4 ''failed'' db4))
       = map (\<lambda>p. if pin_Content p = cont4
                   then p\<lparr>pin_Pinning := False, pin_Active := False, pin_Failed := True\<rparr>
                   else p) (pins db4)
   \<and> (\<not> te_First_err env5 \<and> te_Objects_fail env5 = None \<and> \<not> te_Update_err env5 \<and>
       te_Refs_fail env5 = None \<and> q5 \<in> set (pins db5) \<and> pin_Content q5 = contid5 \<and>
       Walk dserv5 [root5] [] ([], 0) = Inr (objects5, totalSize5) \<longrightarrow>
        (\<exists>objs. fst (addDatabaseTrackingToContent env5 dserv5 contid5 root5 db5)
                   = Inr (contid5, totalSize5, objs)) \<and>
        pins (snd (addDatabaseTrackingToContent env5 dserv5 contid5 root5 db5))
          = map (\<lambda>p. if pin_Content p = contid5
                      then p\<lparr>pin_Active := True, pin_Size := totalSize5, pin_Pinning := False\<rparr>
                      else p) (pins db5) \<and>
        (\<exists>dbpin refs. dbpin \<in> set (pins db5) \<and> pin_Content dbpin = contid5 \<and>
           obj_refs (snd (addDatabaseTrackingToContent env5 dserv5 contid5 root5 db5))
             = obj_refs db5 @ refs \<and>
           map ref_Pin refs = replicate (length objects5) (pin_ID dbpin)))
   \<and> (\<not> te_First_err env6 \<and> te_Objects_fail env6 = None \<and> \<not> te_Update_err env6 \<and>
       te_Refs_fail env6 = None \<and> q6 \<in> set (pins db6) \<and> pin_Content q6 = op_ContId op6 \<and>
       Walk dsess6 [op_Obj op6] [] ([], 0) = Inr (objects6, totalSize6) \<longrightarrow>
        fst (doPinning env6 dsess6 op6 db6) = Inr () \<and>
        pins (snd (doPinning env6 dsess6 op6 db6))
          = map (\<lambda>p. if pin_Content p = op_ContId op6
                      then p\<lparr>pin_Active := True, pin_Size := totalSize6, pin_Pinning := False\<rparr>
                      else p) (pins db6))"
proof (intro conjI impI)
  assume "p \<in> set (pins db) \<and> pin_ID p \<noteq> pin_Content p"
  then show "p \<in> set (pins (snd (Unpin env (pin_Content p) db)))"
    by (simp add: Unpin_keeps_other_ids)
next
  assume "\<not> ue_First_err env1 \<and> \<not> ue_DeletePin_err env1 \<and> q \<in> set (pins db1) \<and> pin_ID q = contid1"
  then show "pins (snd (Unpin env1 contid1 db1)) = filter (\<lambda>p. pin_ID p \<noteq> contid1) (pins db1)"
    using Unpin_deletes_by_id [of env1 q db1 contid1] by simp
next
  assume "\<not> te_First_err env2 \<and> (\<forall>p \<in> set (pins db2). pin_Content p \<noteq> contid2)"
  then show "addDatabaseTrackingToContent env2 dserv2 contid2 root2 db2 = (Inl ErrRecordNotFound, db2)"
    using track_not_found [of env2 db2 contid2 dserv2 root2] by simp
next
  obtain res db' where run: "addDatabaseTrackingToContent env3 dserv3 contid3 root3 db3 = (res, db')"
    by (cases "addDatabaseTrackingToContent env3 dserv3 contid3 root3 db3")
  have m: "\<And>t. mark_active contid3 t = (\<lambda>p. if pin_Content p = contid3
                         then p\<lparr>pin_Active := True, pin_Size := t, pin_Pinning := False\<rparr>
                         else p)"
    by (rule ext) (simp add: mark_active_def)
  from track_pins [OF run] run
  show "pins (snd (addDatabaseTrackingToContent env3 dserv3 contid3 root3 db3)) = pins db3 \<or>
      (\<exists>t. pins (snd (addDatabaseTrackingToContent env3 dserv3 contid3 root3 db3))
             = map (\<lambda>p. if pin_Content p = contid3
                         then p\<lparr>pin_Active := True, pin_Size := t, pin_Pinning := False\<rparr>
                         else p) (pins db3))"
    by (simp add: m)
next
  show "pins (fst (onPinStatusUpdate False cont4 ''failed'' db4))
       = map (\<lambda>p. if pin_Content p = cont4
                   then p\<lparr>pin_Pinning := False, pin_Active := False, pin_Failed := True\<rparr>
                   else p) (pins db4)"
    by (simp add: onPinStatusUpdate_def UpdateColumns_failed_def Let_def)
next
  assume h: "\<not> te_First_err env5 \<and> te_Objects_fail env5 = None \<and> \<not> te_Update_err env5 \<and>
       te_Refs_fail env5 = None \<and> q5 \<in> set (pins db5) \<and> pin_Content q5 = contid5 \<and>
       Walk dserv5 [root5] [] ([], 0) = Inr (objects5, totalSize5)"
  from track_located_by_content [of env5 q5 db5 contid5 dserv5 root5 objects5 totalSize5] h
  show "\<exists>objs. fst (addDatabaseTrackingToContent env5 dserv5 contid5 root5 db5)
                   = Inr (contid5, totalSize5, objs)"
    and "pins (snd (addDatabaseTrackingToContent env5 dserv5 contid5 root5 db5))
          = map (\<lambda>p. if pin_Content p = contid5
                      then p\<lparr>pin_Active := True, pin_Size := totalSize5, pin_Pinning := False\<rparr>
                      else p) (pins db5)"
    and "\<exists>dbpin refs. dbpin \<in> set (pins db5) \<and> pin_Content dbpin = contid5 \<and>
           obj_refs (snd (addDatabaseTrackingToContent env5 dserv5 contid5 root5 db5))
             = obj_refs db5 @ refs \<and>
           map ref_Pin refs = replicate (length objects5) (pin_ID dbpin)"
    by simp_all
next
  assume h: "\<not> te_First_err env6 \<and> te_Objects_fail env6 = None \<and> \<not> te_Update_err env6 \<and>
       te_Refs_fail env6 = None \<and> q6 \<in> set (pins db6) \<and> pin_Content q6 = op_ContId op6 \<and>
       Walk dsess6 [op_Obj op6] [] ([], 0) = Inr (objects6, totalSize6)"
  from track_located_by_content(1,2)
    [of env6 q6 db6 "op_ContId op6" dsess6 "op_Obj op6" objects6 totalSize6] h
  show "fst (doPinning env6 dsess6 op6 db6) = Inr ()"
    and "pins (snd (doPinning env6 dsess6 op6 db6))
          = map (\<lambda>p. if pin_Content p = op_ContId op6
                      then p\<lparr>pin_Active := True, pin_Size := totalSize6, pin_Pinning := False\<rparr>
                      else p) (pins db6)"
    by (auto simp: doPinning_fst_snd)
qed


theorem C10_unpin_selects_by_primary_key_witness:
  "example_pin 1 7 \<in> set (pins example_db) \<and> pin_ID (example_pin 1 7) \<noteq> pin_Content (example_pin 1 7)
   \<and> example_pin 1 7 \<in> set (pins (snd (Unpin no_unpin_errors 7 example_db)))
   \<and> \<not> ue_First_err no_unpin_errors \<and> \<not> ue_DeletePin_err no_unpin_errors
   \<and> example_pin 7 9 \<in> set (pins example_db) \<and> pin_ID (example_pin 7 9) = 7
   \<and> pins (snd (Unpin no_unpin_errors 7 example_db)) = [example_pin 1 7]
   \<and> \<not> te_First_err no_track_errors \<and> map pin_Content (pins example_db) = [7, 9]
   \<and> addDatabaseTrackingToContent no_track_errors example_dserv 1 (example_cid 0x70 ''root'') example_db
       = (Inl ErrRecordNotFound, example_db)
   \<and> te_Objects_fail no_track_errors = None \<and> \<not> te_Update_err no_track_errors
   \<and> te_Refs_fail no_track_errors = None
   \<and> pin_Content (example_pin 1 7) = 7 \<and> pin_Content (example_pin 1 7) = op_ContId example_op
   \<and> Walk example_dserv [example_cid 0x70 ''root''] [] ([], 0) = Inr (example_walked, 6)
   \<and> Walk example_dserv [op_Obj example_op] [] ([], 0) = Inr (example_walked, 6)
   \<and> fst (addDatabaseTrackingToContent no_track_errors example_dserv 7 (example_cid 0x70 ''root'')
             example_db) = Inr (7, 6, example_objects)
   \<and> map (\<lambda>p. (pin_ID p, pin_Content p, pin_Active p, pin_Pinning p))
         (pins (snd (addDatabaseTrackingToContent no_track_errors example_dserv 7
                       (example_cid 0x70 ''root'') example_db)))
       = [(1, 7, True, False), (7, 9, False, True)]
   \<and> map ref_Pin (obj_refs (snd (addDatabaseTrackingToContent no_track_errors example_dserv 7
                       (example_cid 0x70 ''root'') example_db))) = [1, 1, 1]
   \<and> fst (doPinning no_track_errors example_dserv example_op example_db) = Inr ()
   \<and> map (\<lambda>p. (pin_ID p, pin_Content p, pin_Active p, pin_Pinning p))
         (pins (snd (doPinning no_track_errors example_dserv example_op example_db)))
       = [(1, 7, True, False), (7, 9, False, True)]"
proof -
  note inst = C10_unpin_selects_by_primary_key
    [of "example_pin 1 7" example_db no_unpin_errors
        no_unpin_errors "example_pin 7 9" example_db 7
        no_track_errors example_db 1 example_dserv "example_cid 0x70 ''root''"
        no_track_errors example_dserv 7 "example_cid 0x70 ''root''" example_db
        7 example_db
        no_track_errors "example_pin 1 7" example_db 7 example_dserv "example_cid 0x70 ''root''"
        example_walked 6
        no_track_errors "example_pin 1 7" example_db example_op example_dserv example_walked 6]
  have walk: "Walk example_dserv [example_cid 0x70 ''root''] [] ([], 0) = Inr (example_walked, 6)"
    using example_walk by (simp add: example_walked_def del: Walk.simps)
  then have walk_op: "Walk example_dserv [op_Obj example_op] [] ([], 0) = Inr (example_walked, 6)"
    by (simp add: example_op_def del: Walk.simps)
  have env: "\<not> te_First_err no_track_errors" "te_Objects_fail no_track_errors = None"
    "\<not> te_Update_err no_track_errors" "te_Refs_fail no_track_errors = None"
    "\<not> ue_First_err no_unpin_errors" "\<not> ue_DeletePin_err no_unpin_errors"
    by (simp_all add: no_track_errors_def no_unpin_errors_def)
  have rows: "example_pin 1 7 \<in> set (pins example_db)"
    "pin_ID (example_pin 1 7) \<noteq> pin_Content (example_pin 1 7)"
    "example_pin 7 9 \<in> set (pins example_db)" "pin_ID (example_pin 7 9) = 7"
    "map pin_Content (pins example_db) = [7, 9]"
    "pin_Content (example_pin 1 7) = 7" "pin_Content (example_pin 1 7) = op_ContId example_op"
    by (simp_all add: example_db_def example_pin_def example_op_def)
  from inst rows have keep: "example_pin 1 7 \<in> set (pins (snd (Unpin no_unpin_errors 7 example_db)))"
    by simp
  from inst env rows have del: "pins (snd (Unpin no_unpin_errors 7 example_db)) = [example_pin 1 7]"
    by (simp add: example_db_def example_pin_def)
  from inst env have nf: "addDatabaseTrackingToContent no_track_errors example_dserv 1
      (example_cid 0x70 ''root'') example_db = (Inl ErrRecordNotFound, example_db)"
    by (simp add: example_db_def example_pin_def)
  from inst env rows walk_op have dp: "fst (doPinning no_track_errors example_dserv example_op example_db) = Inr ()"
    by blast
  have tr: "fst (addDatabaseTrackingToContent no_track_errors example_dserv 7 (example_cid 0x70 ''root'')
             example_db) = Inr (7, 6, example_objects)"
    "map (\<lambda>p. (pin_ID p, pin_Content p, pin_Active p, pin_Pinning p))
         (pins (snd (addDatabaseTrackingToContent no_track_errors example_dserv 7
                       (example_cid 0x70 ''root'') example_db)))
       = [(1, 7, True, False), (7, 9, False, True)]"
    "map ref_Pin (obj_refs (snd (addDatabaseTrackingToContent no_track_errors example_dserv 7
                       (example_cid 0x70 ''root'') example_db))) = [1, 1, 1]"
    by (simp_all add: example_run example_db_recorded_def example_pin_def example_refs_def)
  have dps: "map (\<lambda>p. (pin_ID p, pin_Content p, pin_Active p, pin_Pinning p))
         (pins (snd (doPinning no_track_errors example_dserv example_op example_db)))
       = [(1, 7, True, False), (7, 9, False, True)]"
    using tr(2) by (simp add: doPinning_fst_snd example_op_def)
  from rows(1,2) keep env(5,6) rows(3,4) del env(1) rows(5) nf env(2,3,4) rows(6,7) walk walk_op
    tr dp dps
  show ?thesis by (intro conjI)
qed

text \<open>
  Claim C1 fails on the code. In the recorded example database pin 1 owns three ObjRef
  rows, one per Object. \<open>Unpin 1\<close> deletes the Pin row and the three ObjRef rows, then
  \<open>clearUnreferencedObjects\<close> panics with "nyi": the call aborts, and the three Objects,
  now without any ObjRef row, are all still in the table. On no database and for no
  argument does \<open>Unpin\<close> return normally, and it never removes an Object.
\<close>

theorem C1_unpin_reclamation_panics:
  "fst (Unpin no_unpin_errors 1 example_db_recorded) = Inl (Panic ''nyi'')
   \<and> pins (snd (Unpin no_unpin_errors 1 example_db_recorded)) = [example_pin 7 9]
   \<and> obj_refs (snd (Unpin no_unpin_errors 1 example_db_recorded)) = []
   \<and> objects (snd (Unpin no_unpin_errors 1 example_db_recorded)) = example_objects
   \<and> unreferenced_objects (snd (Unpin no_unpin_errors 1 example_db_recorded)) = example_objects
   \<and> length example_objects = 3
   \<and> fst (Unpin env contid db) \<noteq> Inr ()
   \<and> objects (snd (Unpin env contid db)) = objects db"
proof -
  have "fst (Unpin no_unpin_errors 1 example_db_recorded) = Inl (Panic ''nyi'')
   \<and> pins (snd (Unpin no_unpin_errors 1 example_db_recorded)) = [example_pin 7 9]
   \<and> obj_refs (snd (Unpin no_unpin_errors 1 example_db_recorded)) = []
   \<and> objects (snd (Unpin no_unpin_errors 1 example_db_recorded)) = example_objects
   \<and> unreferenced_objects (snd (Unpin no_unpin_errors 1 example_db_recorded)) = example_objects
   \<and> length example_objects = 3"
    by (simp add: Unpin_def First_pin_def no_unpin_errors_def example_db_recorded_def
        example_pin_def Delete_pin_def Delete_obj_refs_def clearUnreferencedObjects_def
        example_refs_def unreferenced_objects_def example_objects_def)
  with Unpin_never_succeeds [of env contid db] Unpin_objects [of env contid db]
  show ?thesis by (intro conjI) (elim conjE, assumption)+
qed

lemma fold_addPinToQueue:
  "fold (\<lambda>c q. addPinToQueue c peers replace q) ps queue =
     queue @ map (\<lambda>p. \<lparr>op_ContId = pin_Content p, op_UserId = pin_UserID p, op_Obj = pin_Cid p,
                 op_Peers = peers, op_Started = pin_CreatedAt p, op_Status = ''queued'',
                 op_Replace = replace\<rparr>) ps"
  by (induction ps arbitrary: queue) (simp_all add: addPinToQueue_def PinMgr_Add_def)

text \<open>
  Claim C9. With the query of \<open>refreshPinQueue\<close> succeeding, the operations added to the
  pin queue are, in table order, one per Pin row with \<open>active = false\<close> and
  \<open>pinning = true\<close> and none for any other row; each carries the row's content id, user
  and root address, no peers and the replacement target 0.
\<close>

theorem C9_restore_enqueues_pending_pins:
  "refreshPinQueue False db queue =
     (Inr (),
      queue @ map (\<lambda>p. \<lparr>op_ContId = pin_Content p, op_UserId = pin_UserID p, op_Obj = pin_Cid p,
                         op_Peers = [], op_Started = pin_CreatedAt p, op_Status = ''queued'',
                         op_Replace = 0\<rparr>)
                  (filter (\<lambda>p. pin_Active p = False \<and> pin_Pinning p = True) (pins db)))"
  by (simp add: refreshPinQueue_def Find_pins_def fold_addPinToQueue)

section \<open>Update reporter\<close>

lemma reporterRound_sends:
  "rd_send_err r = None \<Longrightarrow>
     reporterRound r outgoing =
       outgoing @ [\<lparr>Op = OP_ShuttleUpdate,
                    Params = no_params\<lparr>par_ShuttleUpdate :=
                      (case getUpdatePacket (rd_update r) (rd_DB r) of
                         Inl e \<Rightarrow> None | Inr u \<Rightarrow> Some u)\<rparr>\<rparr>]"
  by (simp add: reporterRound_def sendRpcMessage_def)

lemma updateReporter_snoc:
  "updateReporter startup (ticks @ [t]) outgoing = reporterRound t (updateReporter startup ticks outgoing)"
  by (simp add: updateReporter_def)

text \<open>
  Claim C3 fails on the code. The reporter does send one message at startup and one per
  tick, each round on its own; but a round whose snapshot cannot be gathered is not
  skipped: after logging the error the round goes on to send a \<open>ShuttleUpdate\<close> message
  whose payload is nil. Here the startup round succeeds and \<open>unix.Statfs\<close> fails on the
  first tick: two messages are queued, the second with no payload. The same happens in
  every round in which \<open>unix.Statfs\<close> fails and the send goes through.
\<close>

theorem C3_failed_snapshot_is_still_sent:
  "getUpdatePacket (rd_update (example_round (Inl IOError))) (rd_DB (example_round (Inl IOError)))
     = Inl IOError
   \<and> updateReporter (example_round (Inr example_statfs)) [example_round (Inl IOError)] []
     = [\<lparr>Op = ''ShuttleUpdate'',
         Params = \<lparr>par_ShuttleUpdate =
                     Some \<lparr>PinQueueSize = 2, BlockstoreSize = 4096000,
                           BlockstoreFree = 1024000, NumPins = 1\<rparr>,
                   par_UpdatePinStatus = None, par_TransferStatus = None\<rparr>\<rparr>,
        \<lparr>Op = ''ShuttleUpdate'',
         Params = \<lparr>par_ShuttleUpdate = None, par_UpdatePinStatus = None,
                   par_TransferStatus = None\<rparr>\<rparr>]
   \<and> reporterRound
        \<lparr>rd_update = \<lparr>up_PinQueueSize = q, up_Statfs = Inl e, up_Count_err = c\<rparr>,
         rd_DB = db, rd_send_err = None\<rparr> outgoing
     = outgoing @
        [\<lparr>Op = ''ShuttleUpdate'',
          Params = \<lparr>par_ShuttleUpdate = None, par_UpdatePinStatus = None,
                    par_TransferStatus = None\<rparr>\<rparr>]"
  by (simp add: updateReporter_def reporterRound_def sendRpcMessage_def getUpdatePacket_def
      example_round_def example_statfs_def example_db_recorded_def example_pin_def
      OP_ShuttleUpdate_def no_params_def)

section \<open>RPC session\<close>

lemma rpc_loops_frames:
  "\<exists>msgs. fst (snd (rpc_loops evs closed fs cs)) = fs @ map MessageFrame msgs"
proof (induction evs arbitrary: closed fs cs)
  case Nil
  have "fst (snd (rpc_loops [] closed fs cs)) = fs @ map MessageFrame []" by simp
  then show ?case by (rule exI)
next
  case (Cons ev evs)
  show ?case
  proof (cases ev)
    case (Receive r)
    show ?thesis
    proof (cases closed)
      case True
      with Receive Cons [of closed fs cs] show ?thesis by simp
    next
      case False
      show ?thesis
      proof (cases r)
        case (Inl e)
        with Receive False Cons [of True fs cs] show ?thesis by simp
      next
        case (Inr cmd)
        with Receive False Cons [of False fs "cs @ [cmd]"] show ?thesis by simp
      qed
    qed
  next
    case (Outgoing msg r)
    show ?thesis
    proof (cases r)
      case None
      from Cons [of closed "fs @ [MessageFrame msg]" cs] obtain msgs where
        "fst (snd (rpc_loops evs closed (fs @ [MessageFrame msg]) cs))
           = (fs @ [MessageFrame msg]) @ map MessageFrame msgs"
        by blast
      then have "fst (snd (rpc_loops (ev # evs) closed fs cs)) = fs @ map MessageFrame (msg # msgs)"
        using Outgoing None by simp
      then show ?thesis by (rule exI)
    next
      case (Some e)
      with Outgoing Cons [of closed fs cs] show ?thesis by simp
    qed
  next
    case ReadDone
    show ?thesis
    proof (cases closed)
      case True
      with ReadDone have "fst (snd (rpc_loops (ev # evs) closed fs cs)) = fs @ map MessageFrame []"
        by simp
      then show ?thesis by (rule exI)
    next
      case False
      with ReadDone Cons [of closed fs cs] show ?thesis by simp
    qed
  qed
qed

lemma rpc_loops_read_error:
  "rpc_loops (Receive (Inl e) # evs) closed fs cs = rpc_loops evs True fs cs"
  by simp

lemma rpc_loops_closed_done:
  "fst (rpc_loops (evs2 @ ReadDone # evs3) True fs cs) = Some (Inl read_exit)"
proof (induction evs2 arbitrary: fs cs)
  case Nil
  show ?case by (simp add: read_exit_def)
next
  case (Cons ev evs2)
  show ?case
  proof (cases ev)
    case (Receive r)
    with Cons show ?thesis by simp
  next
    case (Outgoing msg r)
    with Cons show ?thesis by (cases r) simp_all
  next
    case ReadDone
    then show ?thesis by (simp add: read_exit_def)
  qed
qed

lemma rpc_loops_prefix:
  "fst (rpc_loops (evs1 @ rest) closed fs cs) = Some (Inl read_exit) \<or>
   (\<exists>closed' fs' cs'. rpc_loops (evs1 @ rest) closed fs cs = rpc_loops rest closed' fs' cs')"
proof (induction evs1 arbitrary: closed fs cs)
  case Nil
  show ?case by auto
next
  case (Cons ev evs1)
  show ?case
  proof (cases ev)
    case (Receive r)
    show ?thesis
    proof (cases closed)
      case True
      with Receive Cons [of closed fs cs] show ?thesis by simp
    next
      case False
      show ?thesis
      proof (cases r)
        case (Inl e)
        with Receive False Cons [of True fs cs] show ?thesis by simp
      next
        case (Inr cmd)
        with Receive False Cons [of False fs "cs @ [cmd]"] show ?thesis by simp
      qed
    qed
  next
    case (Outgoing msg r)
    show ?thesis
    proof (cases r)
      case None
      with Outgoing Cons [of closed "fs @ [MessageFrame msg]" cs] show ?thesis by simp
    next
      case (Some e)
      with Outgoing Cons [of closed fs cs] show ?thesis by simp
    qed
  next
    case ReadDone
    show ?thesis
    proof (cases closed)
      case True
      with ReadDone show ?thesis by (simp add: read_exit_def)
    next
      case False
      with ReadDone Cons [of closed fs cs] show ?thesis by simp
    qed
  qed
qed

lemma rpc_loops_aborts_after_read_error:
  "fst (rpc_loops (evs1 @ Receive (Inl e) # evs2 @ ReadDone # evs3) closed fs cs) = Some (Inl read_exit)"
proof -
  from rpc_loops_prefix [of evs1 "Receive (Inl e) # evs2 @ ReadDone # evs3" closed fs cs]
  show ?thesis
  proof
    assume "fst (rpc_loops (evs1 @ Receive (Inl e) # evs2 @ ReadDone # evs3) closed fs cs) = Some (Inl read_exit)"
    then show ?thesis .
  next
    assume "\<exists>closed' fs' cs'. rpc_loops (evs1 @ Receive (Inl e) # evs2 @ ReadDone # evs3) closed fs cs
        = rpc_loops (Receive (Inl e) # evs2 @ ReadDone # evs3) closed' fs' cs'"
    then obtain closed' fs' cs' where
      "rpc_loops (evs1 @ Receive (Inl e) # evs2 @ ReadDone # evs3) closed fs cs
        = rpc_loops (Receive (Inl e) # evs2 @ ReadDone # evs3) closed' fs' cs'" by blast
    then show ?thesis
      by (simp only: rpc_loops_read_error rpc_loops_closed_done)
  qed
qed

lemma rpc_loops_failed_send_skipped:
  "rpc_loops (evs1 @ Outgoing msg (Some e) # evs2) closed fs cs = rpc_loops (evs1 @ evs2) closed fs cs"
proof (induction evs1 arbitrary: closed fs cs)
  case Nil
  show ?case by simp
next
  case (Cons ev evs1)
  show ?case
  proof (cases ev)
    case (Receive r)
    with Cons show ?thesis by (cases r) simp_all
  next
    case (Outgoing m r)
    with Cons show ?thesis by (cases r) simp_all
  next
    case ReadDone
    with Cons show ?thesis by simp
  qed
qed

lemma rpc_loops_returns_only_on_read_exit:
  "fst (rpc_loops evs closed fs cs) = Some r \<Longrightarrow>
     r = Inl read_exit \<and> (closed \<or> (\<exists>e. Receive (Inl e) \<in> set evs))"
proof (induction evs arbitrary: closed fs cs)
  case Nil
  then show ?case by simp
next
  case (Cons ev evs)
  show ?case
  proof (cases ev)
    case (Receive x)
    show ?thesis
    proof (cases closed)
      case True
      with Receive Cons.prems Cons.IH [of closed fs cs] show ?thesis by simp
    next
      case False
      show ?thesis
      proof (cases x)
        case (Inl e)
        with Receive False Cons.prems Cons.IH [of True fs cs] show ?thesis by auto
      next
        case (Inr cmd)
        with Receive False Cons.prems Cons.IH [of False fs "cs @ [cmd]"] show ?thesis by simp
      qed
    qed
  next
    case (Outgoing m x)
    show ?thesis
    proof (cases x)
      case None
      with Outgoing Cons.prems Cons.IH [of closed "fs @ [MessageFrame m]" cs] show ?thesis by simp
    next
      case (Some e)
      with Outgoing Cons.prems Cons.IH [of closed fs cs] show ?thesis by simp
    qed
  next
    case ReadDone
    show ?thesis
    proof (cases closed)
      case True
      with ReadDone Cons.prems show ?thesis by (simp add: read_exit_def)
    next
      case False
      with ReadDone Cons.prems Cons.IH [of closed fs cs] show ?thesis by simp
    qed
  qed
qed

lemma runRpc_frames:
  "fst (snd (runRpc d hello_send evs)) = [] \<or>
   (\<exists>h msgs. getHelloMessage d = Inr h \<and>
       fst (snd (runRpc d hello_send evs)) = HelloFrame h # map MessageFrame msgs)"
proof (cases "getHelloMessage d")
  case (Inl e)
  then show ?thesis by (simp add: runRpc_def)
next
  case (Inr h)
  show ?thesis
  proof (cases hello_send)
    case (Some e)
    with Inr show ?thesis by (simp add: runRpc_def)
  next
    case None
    from rpc_loops_frames [of evs False "[HelloFrame h]" "[]"] obtain msgs where
      "fst (snd (rpc_loops evs False [HelloFrame h] [])) = [HelloFrame h] @ map MessageFrame msgs"
      by blast
    with Inr None have "fst (snd (runRpc d hello_send evs)) = HelloFrame h # map MessageFrame msgs"
      by (simp add: runRpc_def)
    with Inr show ?thesis by blast
  qed
qed

lemma hello_first_runRpc: "hello_first d (fst (snd (runRpc d hello_send evs)))"
proof -
  from runRpc_frames [of d hello_send evs] show ?thesis
  proof
    assume "fst (snd (runRpc d hello_send evs)) = []"
    then show ?thesis by simp
  next
    assume "\<exists>h msgs. getHelloMessage d = Inr h \<and>
       fst (snd (runRpc d hello_send evs)) = HelloFrame h # map MessageFrame msgs"
    then obtain h msgs where "getHelloMessage d = Inr h"
      and "fst (snd (runRpc d hello_send evs)) = HelloFrame h # map MessageFrame msgs" by blast
    then show ?thesis by (simp add: list_all_iff)
  qed
qed

lemma hello_first_sessions: "list_all (hello_first d) (session_frames (RunRpcConnection d as))"
proof (induction as)
  case Nil
  show ?case by simp
next
  case (Cons a as)
  show ?case
  proof (cases "at_dial a")
    case (Some e)
    with Cons show ?thesis by simp
  next
    case None
    obtain res fs cs where run: "runRpc d (at_hello_send a) (at_events a) = (res, fs, cs)"
      by (cases "runRpc d (at_hello_send a) (at_events a)")
    from hello_first_runRpc [of d "at_hello_send a" "at_events a"] run
    have hf: "hello_first d fs" by simp
    show ?thesis
    proof (cases res)
      case None': None
      with None run hf show ?thesis by simp
    next
      case (Some r)
      with None run hf Cons show ?thesis by (cases r) simp_all
    qed
  qed
qed

text \<open>
  Claim C8. When the hello cannot be built (no default wallet address) or its send fails,
  \<open>runRpc\<close> returns that error with no frame written and no command dispatched,
  whatever events follow: the loops are not entered. Otherwise the hello carries the
  host name, the peer identity, the default address and the peer's addresses, and the
  frames written in the session are the hello followed by messages only. A failed dial
  runs no session at all. So in every session the supervisor runs, the frames written
  are none, or the node's hello first and then messages.
\<close>

theorem C8_hello_is_first_frame:
  "(getHelloMessage d = Inl e \<longrightarrow> runRpc d hello_send evs = (Some (Inl e), [], []))
   \<and> (getHelloMessage d1 = Inr h1 \<longrightarrow> runRpc d1 (Some e1) evs1 = (Some (Inl e1), [], []))
   \<and> (getHelloMessage d2 = Inr h2 \<longrightarrow>
        hello_Host h2 = nd_hostname d2 \<and> hello_PeerID h2 = nd_Host_ID d2 \<and>
        nd_Wallet_GetDefault d2 = Inr (hello_Address h2) \<and>
        hello_AddrInfo h2 = (nd_Host_ID d2, nd_Host_Addrs d2) \<and>
        (\<exists>msgs. fst (snd (runRpc d2 None evs2)) = HelloFrame h2 # map MessageFrame msgs))
   \<and> (at_dial a = Some e3 \<longrightarrow> RunRpcConnection d3 (a # as) = Sleep 10 # RunRpcConnection d3 as)
   \<and> list_all (hello_first d4) (session_frames (RunRpcConnection d4 as4))"
proof (intro conjI impI)
  assume "getHelloMessage d = Inl e"
  then show "runRpc d hello_send evs = (Some (Inl e), [], [])" by (simp add: runRpc_def)
next
  assume "getHelloMessage d1 = Inr h1"
  then show "runRpc d1 (Some e1) evs1 = (Some (Inl e1), [], [])" by (simp add: runRpc_def)
next
  assume h: "getHelloMessage d2 = Inr h2"
  then show "hello_Host h2 = nd_hostname d2" and "hello_PeerID h2 = nd_Host_ID d2"
    and "nd_Wallet_GetDefault d2 = Inr (hello_Address h2)"
    and "hello_AddrInfo h2 = (nd_Host_ID d2, nd_Host_Addrs d2)"
    by (auto simp: getHelloMessage_def split: sum.splits)
  from rpc_loops_frames [of evs2 False "[HelloFrame h2]" "[]"] obtain msgs where
    "fst (snd (rpc_loops evs2 False [HelloFrame h2] [])) = [HelloFrame h2] @ map MessageFrame msgs"
    by blast
  with h have "fst (snd (runRpc d2 None evs2)) = HelloFrame h2 # map MessageFrame msgs"
    by (simp add: runRpc_def)
  then show "\<exists>msgs. fst (snd (runRpc d2 None evs2)) = HelloFrame h2 # map MessageFrame msgs"
    by (rule exI)
next
  assume "at_dial a = Some e3"
  then show "RunRpcConnection d3 (a # as) = Sleep 10 # RunRpcConnection d3 as" by simp
next
  show "list_all (hello_first d4) (session_frames (RunRpcConnection d4 as4))"
    by (rule hello_first_sessions)
qed

theorem C8_hello_is_first_frame_witness:
  "getHelloMessage (example_node\<lparr>nd_Wallet_GetDefault := Inl IOError\<rparr>) = Inl IOError
   \<and> runRpc (example_node\<lparr>nd_Wallet_GetDefault := Inl IOError\<rparr>) None
        [Outgoing (example_msg ''a'') None] = (Some (Inl IOError), [], [])
   \<and> getHelloMessage example_node = Inr example_hello
   \<and> runRpc example_node (Some IOError) [Outgoing (example_msg ''a'') None]
        = (Some (Inl IOError), [], [])
   \<and> fst (snd (runRpc example_node None [Outgoing (example_msg ''a'') None, ReadDone]))
        = [HelloFrame example_hello, MessageFrame (example_msg ''a'')]
   \<and> at_dial \<lparr>at_dial = Some IOError, at_hello_send = None, at_events = []\<rparr> = Some IOError
   \<and> RunRpcConnection example_node
        [\<lparr>at_dial = Some IOError, at_hello_send = None, at_events = []\<rparr>,
         \<lparr>at_dial = None, at_hello_send = None,
          at_events = [Outgoing (example_msg ''a'') None, Receive (Inl IOError), ReadDone]\<rparr>,
         \<lparr>at_dial = None, at_hello_send = None, at_events = [Outgoing (example_msg ''b'') None]\<rparr>]
       = [Sleep 10,
          Session [HelloFrame example_hello, MessageFrame (example_msg ''a'')] [],
          Sleep 10,
          Session [HelloFrame example_hello, MessageFrame (example_msg ''b'')] []]"
  using C8_hello_is_first_frame
    [of "example_node\<lparr>nd_Wallet_GetDefault := Inl IOError\<rparr>" IOError None
        "[Outgoing (example_msg ''a'') None]"
        example_node example_hello IOError "[Outgoing (example_msg ''a'') None]"
        example_node example_hello "[Outgoing (example_msg ''a'') None, ReadDone]"
        "\<lparr>at_dial = Some IOError, at_hello_send = None, at_events = []\<rparr>" IOError
        example_node
        "[\<lparr>at_dial = None, at_hello_send = None,
          at_events = [Outgoing (example_msg ''a'') None, Receive (Inl IOError), ReadDone]\<rparr>,
         \<lparr>at_dial = None, at_hello_send = None, at_events = [Outgoing (example_msg ''b'') None]\<rparr>]"
        example_node "[]"]
  by (simp add: getHelloMessage_def example_node_def example_hello_def runRpc_def)

text \<open>
  Claim C4, as the code has it. After a read error the read goroutine exits, and the
  session returns the "read routine exited" error as soon as the write loop takes the
  read-done case. A failed write does not end the session: the session goes on exactly
  as if the message had never been taken from the queue. The session returns in no
  other way than through a read error. When it has returned, the supervisor sleeps ten
  seconds and goes on to the next attempt.
\<close>

theorem C4_read_error_aborts_session:
  "(getHelloMessage d = Inr h \<longrightarrow>
      fst (runRpc d None (evs1 @ Receive (Inl e) # evs2 @ ReadDone # evs3)) = Some (Inl read_exit))
   \<and> runRpc d1 hs1 (evs4 @ Outgoing msg (Some e1) # evs5) = runRpc d1 hs1 (evs4 @ evs5)
   \<and> (getHelloMessage d2 = Inr h2 \<and> fst (runRpc d2 None evs6) = Some r \<longrightarrow>
        r = Inl read_exit \<and> (\<exists>e'. Receive (Inl e') \<in> set evs6))
   \<and> (at_dial a = None \<and> runRpc d3 (at_hello_send a) (at_events a) = (Some (Inl e3), fs, cs) \<longrightarrow>
        RunRpcConnection d3 (a # as) = Session fs cs # Sleep 10 # RunRpcConnection d3 as)"
proof (intro conjI impI)
  assume "getHelloMessage d = Inr h"
  then show "fst (runRpc d None (evs1 @ Receive (Inl e) # evs2 @ ReadDone # evs3)) = Some (Inl read_exit)"
    by (simp add: runRpc_def rpc_loops_aborts_after_read_error)
next
  show "runRpc d1 hs1 (evs4 @ Outgoing msg (Some e1) # evs5) = runRpc d1 hs1 (evs4 @ evs5)"
    by (simp add: runRpc_def rpc_loops_failed_send_skipped split: sum.splits option.splits)
next
  assume a: "getHelloMessage d2 = Inr h2 \<and> fst (runRpc d2 None evs6) = Some r"
  then have "getHelloMessage d2 = Inr h2" and "fst (runRpc d2 None evs6) = Some r" by simp_all
  then have "fst (rpc_loops evs6 False [HelloFrame h2] []) = Some r" by (simp add: runRpc_def)
  from rpc_loops_returns_only_on_read_exit [OF this]
  show "r = Inl read_exit" and "\<exists>e'. Receive (Inl e') \<in> set evs6" by simp_all
next
  assume "at_dial a = None \<and> runRpc d3 (at_hello_send a) (at_events a) = (Some (Inl e3), fs, cs)"
  then show "RunRpcConnection d3 (a # as) = Session fs cs # Sleep 10 # RunRpcConnection d3 as"
    by simp
qed

theorem C4_read_error_aborts_session_witness:
  "getHelloMessage example_node = Inr example_hello
   \<and> fst (runRpc example_node None
        ([Outgoing (example_msg ''a'') None] @ Receive (Inl IOError) #
         [Outgoing (example_msg ''b'') None] @ ReadDone # [Outgoing (example_msg ''c'') None]))
       = Some (Inl read_exit)
   \<and> runRpc example_node None
        ([Outgoing (example_msg ''a'') None] @ Outgoing (example_msg ''b'') (Some IOError) #
         [Outgoing (example_msg ''c'') None])
       = (None, [HelloFrame example_hello, MessageFrame (example_msg ''a''),
                 MessageFrame (example_msg ''c'')], [])
   \<and> fst (runRpc example_node None [Receive (Inl IOError), ReadDone]) = Some (Inl read_exit)
   \<and> at_dial \<lparr>at_dial = None, at_hello_send = None,
               at_events = [Receive (Inl IOError), ReadDone]\<rparr> = None
   \<and> runRpc example_node None [Receive (Inl IOError), ReadDone]
       = (Some (Inl read_exit), [HelloFrame example_hello], [])
   \<and> RunRpcConnection example_node
        [\<lparr>at_dial = None, at_hello_send = None, at_events = [Receive (Inl IOError), ReadDone]\<rparr>]
       = [Session [HelloFrame example_hello] [], Sleep 10]"
  using C4_read_error_aborts_session
    [of example_node example_hello "[Outgoing (example_msg ''a'') None]" IOError
        "[Outgoing (example_msg ''b'') None]" "[Outgoing (example_msg ''c'') None]"
        example_node None "[Outgoing (example_msg ''a'') None]" "example_msg ''b''" IOError
        "[Outgoing (example_msg ''c'') None]"
        example_node example_hello "[Receive (Inl IOError), ReadDone]" "Inl read_exit"
        "\<lparr>at_dial = None, at_hello_send = None, at_events = [Receive (Inl IOError), ReadDone]\<rparr>"
        example_node read_exit "[HelloFrame example_hello]" "[]" "[]"]
  by (simp add: getHelloMessage_def example_node_def example_hello_def runRpc_def read_exit_def)

text \<open>
  Claim C4 as stated fails: after a failed write the session is still running; it writes
  the next queued message and dispatches the next command.
\<close>

theorem C4_write_failure_aborts_counterexample:
  "runRpc example_node None
     [Outgoing (example_msg ''a'') (Some IOError), Outgoing (example_msg ''b'') None,
      Receive (Inr \<lparr>cmd_Op = ''x''\<rparr>)]
   = (None, [HelloFrame example_hello, MessageFrame (example_msg ''b'')], [\<lparr>cmd_Op = ''x''\<rparr>])"
  by (simp add: getHelloMessage_def example_node_def example_hello_def runRpc_def)

section \<open>The route POST /content/add\<close>

lemma handleAdd_staged_success:
  "handleAdd_staged env sh u fname w = (Inr resp, w') \<Longrightarrow>
     \<exists>root bs. ae_importFile env = Inr (root, bs) \<and> resp = JSON 200 [(''cid'', cid_String root)]"
  unfolding handleAdd_staged_def
  by (auto split: sum.splits prod.splits)

lemma handleAdd_success:
  assumes "handleAdd env sh u w = (Inr resp, w')"
  shows "\<exists>root bs. ae_importFile env = Inr (root, bs) \<and> resp = JSON 200 [(''cid'', cid_String root)]"
proof -
  from assms obtain fname w1 where "handleAdd_staged env sh u fname w = (Inr resp, w1)"
    unfolding handleAdd_def
    by (auto split: if_splits option.splits sum.splits prod.splits)
  then show ?thesis by (rule handleAdd_staged_success)
qed

text \<open>
  Claim C7. For a user whose storage-disabled flag is set, \<open>handleAdd\<close> returns the
  structured error with code 400 and the content-adding-disabled message and leaves the
  database (and everything else it works on) as it was, so no Pin row is created; the
  same holds for the whole route when the bearer token resolves to such a user of
  sufficient permission level. Whenever \<open>handleAdd\<close> returns a response, it is the
  status 200 with the one field \<open>cid\<close>, the string form of the root address the import
  produced.
\<close>

theorem C7_add_disabled_and_success:
  "(usr_StorageDisabled u \<longrightarrow>
      handleAdd env sh u w = (Inl (HttpError 400 ERR_CONTENT_ADDING_DISABLED), w))
   \<and> (checkTokenAuth viewer token = Inr u1 \<and> level \<le> usr_Perms u1 \<and> usr_StorageDisabled u1 \<longrightarrow>
      content_add_route level viewer (Inr token) env1 sh1 w1
        = (Inl (HttpError 400 ERR_CONTENT_ADDING_DISABLED), w1))
   \<and> (handleAdd env2 sh2 u2 w2 = (Inr resp, w2') \<longrightarrow>
      (\<exists>root bs. ae_importFile env2 = Inr (root, bs) \<and>
                 resp = JSON 200 [(''cid'', cid_String root)]))"
proof (intro conjI impI)
  assume "usr_StorageDisabled u"
  then show "handleAdd env sh u w = (Inl (HttpError 400 ERR_CONTENT_ADDING_DISABLED), w)"
    by (simp add: handleAdd_def)
next
  assume "checkTokenAuth viewer token = Inr u1 \<and> level \<le> usr_Perms u1 \<and> usr_StorageDisabled u1"
  then show "content_add_route level viewer (Inr token) env1 sh1 w1
        = (Inl (HttpError 400 ERR_CONTENT_ADDING_DISABLED), w1)"
    by (simp add: content_add_route_def AuthRequired_def handleAdd_def)
next
  assume "handleAdd env2 sh2 u2 w2 = (Inr resp, w2')"
  then show "\<exists>root bs. ae_importFile env2 = Inr (root, bs) \<and>
                 resp = JSON 200 [(''cid'', cid_String root)]"
    by (rule handleAdd_success)
qed

lemma example_user_ok:
  "checkTokenAuth example_viewer ''tok-ok'' = Inr (example_user 3 ''alice'' ''tok-ok'' False)"
  by (simp add: checkTokenAuth_def example_viewer_def example_user_def)

lemma example_user_disabled:
  "checkTokenAuth example_viewer ''tok-disabled'' = Inr (example_user 2 ''bob'' ''tok-disabled'' True)"
  by (simp add: checkTokenAuth_def example_viewer_def example_user_def)

lemma example_insert_pin:
  "insert_pin \<lparr>pin_ID = 0, pin_Content = 12, pin_Cid = example_cid 0x70 ''root'',
               pin_UserID = 3, pin_Active = False, pin_Pinning = True,
               pin_Failed = False, pin_Size = 0, pin_CreatedAt = 5\<rparr> False example_db
   = (Inr example_new_pin,
      example_db\<lparr>pins := [example_pin 1 7, example_pin 7 9, example_new_pin],
                 db_log := [InsertPin example_new_pin]\<rparr>)"
  by (simp add: insert_pin_def example_db_def example_new_pin_def fresh_id_def example_pin_def Let_def)

lemma example_track_new_pin:
  "addDatabaseTrackingToContent no_track_errors example_dserv 12 (example_cid 0x70 ''root'')
     (example_db\<lparr>pins := [example_pin 1 7, example_pin 7 9, example_new_pin],
                 db_log := [InsertPin example_new_pin]\<rparr>)
   = (Inr (12, 6, example_objects), w_DB example_world_added)"
  by (simp add: addDatabaseTrackingToContent_def example_walk First_pin_def example_db_def
      example_pin_def no_track_errors_def CreateInBatches_def batches_short insert_objects_def
      insert_obj_refs_def fresh_id_def UpdateColumns_active_def Let_def example_objects_def
      example_new_pin_def example_new_refs_def example_world_added_def del: Walk.simps)

lemma example_dump:
  "dumpBlockstoreTo \<lparr>de_AllKeys_err = False, de_Get_fail = None, de_PutMany_fail = None\<rparr>
     example_dserv [] = (Inr (), example_dserv)"
  by (simp add: dumpBlockstoreTo_def example_dserv_def)

lemma cid_String_example: "cid_String (example_cid t s) = s"
  by (simp add: example_cid_def)

lemma example_handleAdd_staged:
  "handleAdd_staged example_add_env ''shuttle-1'' (example_user 3 ''alice'' ''tok-ok'' False)
     ''file.bin'' example_world
   = (Inr (JSON 200 [(''cid'', ''root'')]),
      example_world_added\<lparr>w_spawned := [Provide (example_cid 0x70 ''root'')]\<rparr>)"
  by (simp add: handleAdd_staged_def example_add_env_def createContent_def example_world_def
      example_user_def example_insert_pin example_track_new_pin example_dump
      example_world_added_def cid_String_example del: One_nat_def)

lemma example_handleAdd:
  "handleAdd example_add_env ''shuttle-1'' (example_user 3 ''alice'' ''tok-ok'' False) example_world
   = (Inr (JSON 200 [(''cid'', ''root'')]), example_world_added)"
proof -
  have "ae_MultipartForm_err example_add_env = None" "ae_FormFile example_add_env = Inr ''file.bin''"
    "ae_Open_err example_add_env = None" "ae_AllocNew_err example_add_env = None"
    by (simp_all add: example_add_env_def)
  moreover have "\<not> usr_StorageDisabled (example_user 3 ''alice'' ''tok-ok'' False)"
    by (simp add: example_user_def)
  ultimately show ?thesis
    by (simp add: handleAdd_def example_handleAdd_staged del: One_nat_def)
      (simp add: example_world_added_def)
qed

theorem C7_add_disabled_and_success_witness:
  "usr_StorageDisabled (example_user 2 ''bob'' ''tok-disabled'' True)
   \<and> handleAdd example_add_env ''shuttle-1'' (example_user 2 ''bob'' ''tok-disabled'' True) example_world
       = (Inl (HttpError 400 ERR_CONTENT_ADDING_DISABLED), example_world)
   \<and> checkTokenAuth example_viewer ''tok-disabled'' = Inr (example_user 2 ''bob'' ''tok-disabled'' True)
   \<and> (2::int) \<le> usr_Perms (example_user 2 ''bob'' ''tok-disabled'' True)
   \<and> content_add_route 2 example_viewer (Inr ''tok-disabled'') example_add_env ''shuttle-1'' example_world
       = (Inl (HttpError 400 ERR_CONTENT_ADDING_DISABLED), example_world)
   \<and> handleAdd example_add_env ''shuttle-1'' (example_user 3 ''alice'' ''tok-ok'' False) example_world
       = (Inr (JSON 200 [(''cid'', ''root'')]), example_world_added)
   \<and> ae_importFile example_add_env = Inr (example_cid 0x70 ''root'', example_dserv)
   \<and> cid_String (example_cid 0x70 ''root'') = ''root''"
  using C7_add_disabled_and_success
    [of "example_user 2 ''bob'' ''tok-disabled'' True" example_add_env "''shuttle-1''" example_world
        example_viewer "''tok-disabled''" "example_user 2 ''bob'' ''tok-disabled'' True" 2
        example_add_env "''shuttle-1''" example_world
        example_add_env "''shuttle-1''" "example_user 3 ''alice'' ''tok-ok'' False" example_world
        "JSON 200 [(''cid'', ''root'')]" example_world_added]
    example_user_disabled example_handleAdd
  by (simp add: example_user_def example_add_env_def cid_String_example)

end
